theory Spec2Isabelle
  imports Complex_Main "HOL-Library.AList"
begin

section \<open>Web-Scraper-Desktop: the scraper engine and its CSV utilities\<close>

text \<open>
  A shallow embedding of \<^verbatim>\<open>ScraperEngine.ts\<close>, \<^verbatim>\<open>CsvUtils.ts\<close>, \<^verbatim>\<open>Bypass.ts\<close>,
  \<^verbatim>\<open>LogoCapture.ts\<close>, \<^verbatim>\<open>AISmartScrape.ts\<close>, \<^verbatim>\<open>FileUtils.ts\<close> and \<^verbatim>\<open>types.ts\<close>.

  Conventions.
  \<^item> A JavaScript string is a \<^typ>\<open>string\<close>; a character stands for one code unit below 256.
  \<^item> A value that the code produces itself as \<^verbatim>\<open>string | null\<close> or \<^verbatim>\<open>string | undefined\<close>
    (the return value of \<open>captureLogo\<close> and of \<open>aiSmartScrape\<close>, the detail of a log line) is
    a \<^typ>\<open>string option\<close>.
  \<^item> A cell of a parsed CSV row is what the parser made of it, whatever the declared type
    of the row says: a string, a number, a boolean, \<^verbatim>\<open>null\<close> or an object (type \<open>jsval\<close>).
    A method call on a value that has no such method throws a \<^verbatim>\<open>TypeError\<close>, with the
    message of V8.
  \<^item> A call that may throw (every call into Playwright, the file system or the network)
    returns \<open>string + 'a\<close>: \<open>Inl msg\<close> is a thrown \<^verbatim>\<open>Error\<close> with message \<open>msg\<close>.
  \<^item> A JavaScript object or \<^verbatim>\<open>Map\<close> whose key order is its insertion order is an
    association list; a property write or \<^verbatim>\<open>Map.set\<close> is \<^const>\<open>AList.update\<close>, which
    replaces the value of a present key in place and appends an absent one. (JavaScript
    lists property names that are array indices before the others; no statement below
    depends on the order of properties, only on lookups.)
  \<^item> The behaviour of the browser, the AI service and the file system is a parameter
    (records \<open>Page\<close> and \<open>Runtime\<close>): every theorem holds for all of them.
  \<^item> Log lines written by the pipeline carry no data into any result, and writing one is
    taken not to throw; the pipeline functions leave them out, and the log buffer is
    modelled by \<open>log\<close> on its own. The same holds for the counters \<^verbatim>\<open>processedUrls\<close> and
    \<^verbatim>\<open>errorCount\<close> of the run.
\<close>

subsection \<open>types.ts\<close>

type_synonym 'a outcome = "string + 'a"

text \<open>
  The JavaScript values that occur as properties of a row. The parser is called with
  \<^verbatim>\<open>dynamicTyping: true\<close>, so a cell is a string, a number (a finite double, here the
  rational number it denotes, so that \<open>0\<close> and \<open>-0\<close> are one value), a boolean, \<^verbatim>\<open>null\<close> (an
  empty cell) or an object (a \<^verbatim>\<open>Date\<close> for an ISO date), which is named by its identity.
  \<open>Undefined\<close> is the value of an absent property.
\<close>
datatype jsval = Str string | Number rat | Boolean bool | Null | Undefined | Object nat

text \<open>An object, its properties in insertion order.\<close>
type_synonym jsobj = "(string \<times> jsval) list"

text \<open>
  An \<^verbatim>\<open>InputRow\<close> is the object that \<open>parseInputCsv\<close> builds for a row of the file. The
  interface declares \<^verbatim>\<open>BaseName\<close> and \<^verbatim>\<open>URL\<close> as strings and every other property as
  \<^verbatim>\<open>string | undefined\<close>; at run time a property holds the value the parser gave the cell.
\<close>
type_synonym InputRow = jsobj

datatype Status = SUCCESS | ERROR | SKIPPED | DUPLICATE

record ScrapeResult =
  ScreenshotFile :: string
  LogoFile :: string
  ScrapedData :: string
  Status :: Status
  ErrorMessage :: string

text \<open>An output row after the fill-in loop: every header has a value.\<close>
type_synonym OutputRow = jsobj

record Selectors =
  css :: string
  xpath :: string

record ScraperConfig =
  inputCsvPath :: string
  outputDirPath :: string
  imageSubFolder :: string
  selectors :: Selectors
  useAISmartScrape :: bool
  concurrency :: int
  aiApiKey :: string

datatype LogLevel = INFO | WARN | ERROR_level

record LogMessage =
  level :: LogLevel
  message :: string
  timestamp :: nat

record ProgressUpdate =
  processed :: nat
  total_urls :: nat  \<comment> \<open>field \<^verbatim>\<open>total\<close>\<close>
  status :: string
  logs :: "LogMessage list"

text \<open>
  \<^verbatim>\<open>ScrapeMap = Map<string, ScrapeResult>\<close>, in insertion order. The keys are the values of
  \<^verbatim>\<open>row.URL\<close>; a \<^verbatim>\<open>Map\<close> compares keys by value (objects by identity).
\<close>
type_synonym ScrapeMap = "(jsval \<times> ScrapeResult) list"

subsection \<open>ScraperEngine: the log buffer and progress reports\<close>

text \<open>
  The instance fields of \<^verbatim>\<open>ScraperEngine\<close> that \<^verbatim>\<open>log\<close> and \<^verbatim>\<open>sendProgress\<close> read
  and write. \<open>sent\<close> collects the updates handed to \<^verbatim>\<open>ipcSender\<close>, oldest first.
\<close>

record Engine =
  logMessages :: "LogMessage list"
  running :: bool
  totalUrls :: nat
  processedUrls :: nat
  errorCount :: nat
  sent :: "ProgressUpdate list"

text \<open>The constructor: an empty log buffer, not running, all counters zero.\<close>
definition new_engine :: Engine where
  "new_engine = \<lparr>logMessages = [], running = False, totalUrls = 0, processedUrls = 0,
     errorCount = 0, sent = []\<rparr>"

text \<open>\<^verbatim>\<open>xs.slice(-n)\<close>: the last \<open>n\<close> elements.\<close>
definition slice_last :: "nat \<Rightarrow> 'a list \<Rightarrow> 'a list" where
  "slice_last n xs = drop (length xs - n) xs"

text \<open>
  \<^verbatim>\<open>sendProgress(status = this.running ? 'Running...' : 'Idle')\<close>: the optional argument
  is \<open>None\<close> when the caller leaves it out.
\<close>
definition sendProgress :: "string option \<Rightarrow> Engine \<Rightarrow> Engine" where
  "sendProgress st e =
     (let status = (case st of Some s \<Rightarrow> s
                    | None \<Rightarrow> if running e then ''Running...'' else ''Idle'');
          update = \<lparr>processed = processedUrls e, total_urls = totalUrls e,
                    status = status, logs = slice_last 50 (logMessages e)\<rparr>
      in e\<lparr>sent := sent e @ [update]\<rparr>)"

text \<open>
  \<^verbatim>\<open>log(level, message, detail?)\<close>. \<open>now\<close> is the value of \<^verbatim>\<open>Date.now()\<close>.
  \<^verbatim>\<open>push\<close> appends; \<^verbatim>\<open>splice(0, 100)\<close> removes the first 100 entries in place.
\<close>
definition log :: "LogLevel \<Rightarrow> string \<Rightarrow> string option \<Rightarrow> nat \<Rightarrow> Engine \<Rightarrow> Engine" where
  "log lvl msg detail now e =
     (let fullMessage = (case detail of
                           Some d \<Rightarrow> if d \<noteq> [] then msg @ '' ('' @ d @ '')'' else msg
                         | None \<Rightarrow> msg);
          m = \<lparr>level = lvl, message = fullMessage, timestamp = now\<rparr>;
          pushed = logMessages e @ [m];
          trimmed = (if length pushed > 500 then drop 100 pushed else pushed)
      in sendProgress None (e\<lparr>logMessages := trimmed\<rparr>))"

text \<open>One call of \<open>log\<close>, as data: level, message, detail, clock value.\<close>
type_synonym log_call = "LogLevel \<times> string \<times> string option \<times> nat"

definition log_all :: "log_call list \<Rightarrow> Engine \<Rightarrow> Engine" where
  "log_all cs e = fold (\<lambda>(lvl, msg, detail, now). log lvl msg detail now) cs e"

subsection \<open>JavaScript strings and objects\<close>

text \<open>
  The characters \<^verbatim>\<open>String.prototype.trim\<close> strips, among the code units below 256: tab,
  line feed, vertical tab, form feed, carriage return, space, no-break space.
\<close>
definition is_space :: "char \<Rightarrow> bool" where
  "is_space c = (c \<in> set [CHR 0x09, CHR 0x0A, CHR 0x0B, CHR 0x0C, CHR 0x0D, CHR 0x20, CHR 0xA0])"

definition trim :: "string \<Rightarrow> string" where
  "trim s = rev (dropWhile is_space (rev (dropWhile is_space s)))"

text \<open>
  \<^verbatim>\<open>s.split(c)\<close> for a one-character separator: the pieces between the separators, all
  of them, so the empty string splits into one empty piece.
\<close>
fun split_on :: "char \<Rightarrow> string \<Rightarrow> string list" where
  "split_on c [] = [[]]"
| "split_on c (x # xs) =
     (if x = c then [] # split_on c xs
      else (case split_on c xs of [] \<Rightarrow> [[x]] | p # ps \<Rightarrow> (x # p) # ps))"

text \<open>
  \<^verbatim>\<open>s.split(c, n)\<close>: split at every separator and keep the first \<open>n\<close> pieces; the text
  after them is not in the array.
\<close>
definition split_limit :: "char \<Rightarrow> nat \<Rightarrow> string \<Rightarrow> string list" where
  "split_limit c n s = take n (split_on c s)"

text \<open>\<^verbatim>\<open>s.includes(sub)\<close>.\<close>
fun str_includes :: "string \<Rightarrow> string \<Rightarrow> bool" where
  "str_includes [] sub = (sub = [])"
| "str_includes (x # xs) sub = (take (length sub) (x # xs) = sub \<or> str_includes xs sub)"

text \<open>
  A value read as a condition: the empty string, \<open>0\<close>, \<^verbatim>\<open>false\<close>, \<^verbatim>\<open>null\<close> and
  \<^verbatim>\<open>undefined\<close> are falsy, every other value is truthy.
\<close>
definition truthy :: "jsval \<Rightarrow> bool" where
  "truthy v =
     (case v of Str s \<Rightarrow> s \<noteq> [] | Number q \<Rightarrow> q \<noteq> 0 | Boolean b \<Rightarrow> b
      | Null \<Rightarrow> False | Undefined \<Rightarrow> False | Object n \<Rightarrow> True)"

text \<open>\<^verbatim>\<open>a || b\<close>: \<open>a\<close> when it is truthy, \<open>b\<close> otherwise.\<close>
definition js_or :: "jsval \<Rightarrow> jsval \<Rightarrow> jsval" where
  "js_or a b = (if truthy a then a else b)"

text \<open>\<^verbatim>\<open>a || d\<close> on \<^verbatim>\<open>string | null\<close>, where \<open>d\<close> is a string: the result is a string.\<close>
definition or_string :: "string option \<Rightarrow> string \<Rightarrow> string" where
  "or_string a d = (case a of Some s \<Rightarrow> if s \<noteq> [] then s else d | None \<Rightarrow> d)"

text \<open>\<^verbatim>\<open>obj[key]\<close>: undefined for an absent key.\<close>
definition obj_get :: "jsobj \<Rightarrow> string \<Rightarrow> jsval" where
  "obj_get obj k = (case map_of obj k of Some v \<Rightarrow> v | None \<Rightarrow> Undefined)"

text \<open>\<^verbatim>\<open>{ ...a, ...b }\<close>: the properties of \<open>b\<close> written onto a copy of \<open>a\<close>, in order.\<close>
definition spread :: "jsobj \<Rightarrow> jsobj \<Rightarrow> jsobj" where
  "spread a b = fold (\<lambda>(k, v) acc. AList.update k v acc) b a"

text \<open>\<^verbatim>\<open>Set.add\<close> on a set kept in insertion order.\<close>
definition set_add :: "'a \<Rightarrow> 'a list \<Rightarrow> 'a list" where
  "set_add x xs = (if x \<in> set xs then xs else xs @ [x])"

subsection \<open>The runtime\<close>

text \<open>
  The body of a response of the AI service, as far as \<open>aiSmartScrape\<close> reads it: the
  candidates, the content of a candidate, the parts of a content, the text of a part,
  each of which may be missing.
\<close>
datatype ai_part = Part (part_text: "string option")
datatype ai_content = Content (parts: "ai_part list option")
datatype ai_candidate = Candidate (content: "ai_content option")
datatype ai_body = Body (candidates: "ai_candidate list option")

record Response =
  ok :: bool
  http_status :: nat  \<comment> \<open>field \<^verbatim>\<open>status\<close>\<close>
  json :: "ai_body outcome"  \<comment> \<open>\<^verbatim>\<open>response.json()\<close>\<close>

text \<open>
  The services of the Node runtime and of the network that the code calls.
  \<open>path_join\<close> is \<^verbatim>\<open>path.join\<close>; \<open>JSON_stringify\<close> is \<^verbatim>\<open>JSON.stringify\<close> on the object that
  \<open>scrapeCustomData\<close> returns (string or null values); \<open>Number_toString\<close> and
  \<open>Object_toString\<close> are the texts that \<^verbatim>\<open>String(v)\<close> gives for a number and for an object.
\<close>
record Runtime =
  path_join :: "string list \<Rightarrow> string"
  ensureDir :: "string \<Rightarrow> unit outcome"
  JSON_stringify :: "jsobj \<Rightarrow> string"
  Number_toString :: "rat \<Rightarrow> string"
  Object_toString :: "nat \<Rightarrow> string"
  fetch :: "string \<Rightarrow> string \<Rightarrow> Response outcome"
    \<comment> \<open>the POST to the model endpoint: API key, then the HTML sent\<close>
  launch :: "unit outcome"  \<comment> \<open>\<^verbatim>\<open>chromium.launch\<close>\<close>
  writeFileSync :: "unit outcome"  \<comment> \<open>writing the output file\<close>

text \<open>\<^verbatim>\<open>String(v)\<close>\<close>
definition js_String :: "Runtime \<Rightarrow> jsval \<Rightarrow> string" where
  "js_String rt v =
     (case v of
        Str s \<Rightarrow> s
      | Number q \<Rightarrow> Number_toString rt q
      | Boolean b \<Rightarrow> if b then ''true'' else ''false''
      | Null \<Rightarrow> ''null''
      | Undefined \<Rightarrow> ''undefined''
      | Object n \<Rightarrow> Object_toString rt n)"

subsection \<open>FileUtils.ts\<close>

text \<open>
  \<^verbatim>\<open>name.replace(/[\/\\:*?"<>|]/g, '_').trim()\<close>. The parameter is declared a string; the
  call \<^verbatim>\<open>name.replace\<close> on \<^verbatim>\<open>null\<close> or \<^verbatim>\<open>undefined\<close>, and on a value without the
  method \<^verbatim>\<open>replace\<close> (a number, a boolean, a date), throws a \<^verbatim>\<open>TypeError\<close>.
\<close>
definition toFileSafeName :: "jsval \<Rightarrow> string outcome" where
  \<open>toFileSafeName name =
     (case name of
        Str s \<Rightarrow>
          Inr (trim (map (\<lambda>c. if c \<in> set [CHR ''/'', CHR 0x5C, CHR '':'', CHR ''*'', CHR ''?'',
                                           CHR 0x22, CHR ''<'', CHR ''>'', CHR ''|'']
                              then CHR ''_'' else c) s))
      | Null \<Rightarrow> Inl ''Cannot read properties of null (reading 'replace')''
      | Undefined \<Rightarrow> Inl ''Cannot read properties of undefined (reading 'replace')''
      | Number q \<Rightarrow> Inl ''name.replace is not a function''
      | Boolean b \<Rightarrow> Inl ''name.replace is not a function''
      | Object n \<Rightarrow> Inl ''name.replace is not a function'')\<close>

datatype ImageType = screenshot_type | logo_type

record ImagePath =
  fullPath :: string
  relativePath :: string

text \<open>\<open>show_nat\<close>: the decimal digits of a number, as a template literal prints it.\<close>
fun show_nat :: "nat \<Rightarrow> string" where
  "show_nat n =
     (if n < 10 then [char_of (48 + n)] else show_nat (n div 10) @ [char_of (48 + n mod 10)])"

declare show_nat.simps [simp del]

text \<open>\<open>getImagePath\<close> throws when its first statement, the call of \<open>toFileSafeName\<close>, does.\<close>
definition getImagePath ::
  "Runtime \<Rightarrow> string \<Rightarrow> string \<Rightarrow> jsval \<Rightarrow> ImageType \<Rightarrow> nat \<Rightarrow> ImagePath outcome" where
  "getImagePath rt baseDir subFolder baseName ty index =
     (case toFileSafeName baseName of
        Inl e \<Rightarrow> Inl e
      | Inr safeBaseName \<Rightarrow>
          (let fileName = (case ty of
                             screenshot_type \<Rightarrow> safeBaseName @ ''.png''
                           | logo_type \<Rightarrow> safeBaseName @ ''-'' @ show_nat index @ ''.png'');
               fullImagePath = path_join rt [baseDir, subFolder, fileName];
               relativeImagePath = path_join rt [subFolder, fileName]
           in Inr \<lparr>fullPath = fullImagePath,
                   relativePath =
                     map (\<lambda>c. if c = CHR 0x5C then CHR ''/'' else c) relativeImagePath\<rparr>))"

subsection \<open>CsvUtils.ts\<close>

text \<open>The property reads \<^verbatim>\<open>row.BaseName\<close>, \<^verbatim>\<open>row.URL\<close>, \<^verbatim>\<open>row.CSSSelector\<close>, \<^verbatim>\<open>row.XPathSelector\<close>.\<close>
definition BaseName :: "InputRow \<Rightarrow> jsval" where
  "BaseName row = obj_get row ''BaseName''"

definition URL :: "InputRow \<Rightarrow> jsval" where
  "URL row = obj_get row ''URL''"

definition CSSSelector :: "InputRow \<Rightarrow> jsval" where
  "CSSSelector row = obj_get row ''CSSSelector''"

definition XPathSelector :: "InputRow \<Rightarrow> jsval" where
  "XPathSelector row = obj_get row ''XPathSelector''"

text \<open>
  The function that \<open>parseInputCsv\<close> maps over the parsed rows:
  \<^verbatim>\<open>row => ({ BaseName: String(row.BaseName || 'untitled'), URL: String(row.URL || ''),\<close>
  \<^verbatim>\<open>CSSSelector: row.CSSSelector ? String(row.CSSSelector) : undefined,\<close>
  \<^verbatim>\<open>XPathSelector: row.XPathSelector ? String(row.XPathSelector) : undefined, ...row })\<close>.
  The spread comes last: a column of the file overwrites the property written before it,
  so that the coerced string stays only where the file has no such column.
\<close>
definition inputRow :: "Runtime \<Rightarrow> jsobj \<Rightarrow> InputRow" where
  "inputRow rt row =
     spread
       [(''BaseName'', Str (js_String rt (js_or (obj_get row ''BaseName'') (Str ''untitled'')))),
        (''URL'', Str (js_String rt (js_or (obj_get row ''URL'') (Str [])))),
        (''CSSSelector'',
           if truthy (obj_get row ''CSSSelector'')
           then Str (js_String rt (obj_get row ''CSSSelector'')) else Undefined),
        (''XPathSelector'',
           if truthy (obj_get row ''XPathSelector'')
           then Str (js_String rt (obj_get row ''XPathSelector'')) else Undefined)]
       row"

definition Status_string :: "Status \<Rightarrow> string" where
  "Status_string st =
     (case st of SUCCESS \<Rightarrow> ''SUCCESS'' | ERROR \<Rightarrow> ''ERROR''
      | SKIPPED \<Rightarrow> ''SKIPPED'' | DUPLICATE \<Rightarrow> ''DUPLICATE'')"

text \<open>The object behind a \<open>ScrapeResult\<close>, its properties in the order \<open>scrapeUrl\<close> writes them.\<close>
definition result_obj :: "ScrapeResult \<Rightarrow> jsobj" where
  "result_obj r =
     [(''ScreenshotFile'', Str (ScreenshotFile r)), (''LogoFile'', Str (LogoFile r)),
      (''ScrapedData'', Str (ScrapedData r)), (''Status'', Str (Status_string (Status r))),
      (''ErrorMessage'', Str (ErrorMessage r))]"

text \<open>
  The loop of \<open>parseInputCsv\<close> that keeps, for each truthy URL, the first row that has it:
  \<^verbatim>\<open>if (row.URL && !uniqueUrls.has(row.URL)) uniqueUrls.set(row.URL, row)\<close>. The result
  is \<^verbatim>\<open>uniqueUrls\<close>, a \<^verbatim>\<open>Map\<close> in insertion order.
\<close>
definition uniqueUrls_of :: "InputRow list \<Rightarrow> (jsval \<times> InputRow) list" where
  "uniqueUrls_of inputRows =
     fold (\<lambda>row uniqueUrls.
             if truthy (URL row) \<and> map_of uniqueUrls (URL row) = None
             then AList.update (URL row) row uniqueUrls else uniqueUrls)
          inputRows []"

text \<open>
  \<open>parseInputCsv\<close>. \<open>parsed\<close> is what reading the file and \<^verbatim>\<open>Papa.parse\<close> give: an error
  (the file cannot be read, or the parser reports an error), or \<^verbatim>\<open>parseResult.data\<close>, one
  object per row of the file, whose properties are the columns of the file with their
  dynamically typed cells. The rows are built by \<open>inputRow\<close>, then the loop runs.
\<close>
definition parseInputCsv ::
  "Runtime \<Rightarrow> jsobj list outcome \<Rightarrow> ((jsval \<times> InputRow) list \<times> InputRow list) outcome" where
  "parseInputCsv rt parsed =
     (case parsed of
        Inl e \<Rightarrow> Inl (''Could not process CSV file: '' @ e)
      | Inr data \<Rightarrow>
          (let inputRows = map (inputRow rt) data
           in Inr (uniqueUrls_of inputRows, inputRows)))"

definition result_headers :: "string list" where
  "result_headers = [''ScreenshotFile'', ''LogoFile'', ''ScrapedData'', ''Status'', ''ErrorMessage'']"

text \<open>\<^verbatim>\<open>finalHeaders\<close>: every key of every input row, then the five result headers.\<close>
definition finalHeaders_of :: "InputRow list \<Rightarrow> string list" where
  "finalHeaders_of inputRows =
     fold set_add result_headers
       (fold (\<lambda>row allHeaders. fold set_add (map fst row) allHeaders) inputRows [])"

text \<open>
  The body of the loop over the input rows: the output row built for one input row.
  \<^verbatim>\<open>{ ...row }\<close> is a copy of the row; \<^verbatim>\<open>completeRow[header] = outputRow[header] || ''\<close>.
\<close>
definition outputRow_of :: "string list \<Rightarrow> ScrapeMap \<Rightarrow> InputRow \<Rightarrow> OutputRow" where
  "outputRow_of finalHeaders scrapeResults row =
     (let outputRow0 = row;
          outputRow =
            (case map_of scrapeResults (URL row) of
               Some result \<Rightarrow> spread outputRow0 (result_obj result)
             | None \<Rightarrow>
                 spread outputRow0
                   [(''Status'', Str ''ERROR''),
                    (''ErrorMessage'', Str ''Internal error: URL not found in results map.'')])
      in map (\<lambda>header. (header, js_or (obj_get outputRow header) (Str []))) finalHeaders)"

text \<open>
  \<open>generateOutputCsv\<close>, up to the array \<^verbatim>\<open>outputRows\<close> that is handed to \<^verbatim>\<open>Papa.unparse\<close>:
  one complete row is pushed per input row, in the order of the loop. The headers are
  distinct, so the complete row has one property per header, in header order.
\<close>
definition generateOutputCsv :: "InputRow list \<Rightarrow> ScrapeMap \<Rightarrow> OutputRow list" where
  "generateOutputCsv inputRows scrapeResults =
     (let finalHeaders = finalHeaders_of inputRows
      in fold (\<lambda>row outputRows. outputRows @ [outputRow_of finalHeaders scrapeResults row])
           inputRows [])"

text \<open>A cell of an output row.\<close>
definition cell :: "OutputRow \<Rightarrow> string \<Rightarrow> jsval option" where
  "cell outputRow header = map_of outputRow header"

subsection \<open>The browser page\<close>

text \<open>
  What one Playwright page does when the pipeline calls it. A locator is named by its
  selector string; each field is the outcome of the call on this page.
\<close>
record Page =
  goto :: "jsval \<Rightarrow> unit outcome"  \<comment> \<open>the argument is the key of the URL, as it is\<close>
  waitForLoadState :: "unit outcome"  \<comment> \<open>the network-idle wait\<close>
  boundingBox :: "string \<Rightarrow> bool outcome"
    \<comment> \<open>\<^verbatim>\<open>locator(sel).first().boundingBox()\<close>: is there a box\<close>
  tagName :: "string \<Rightarrow> string outcome"  \<comment> \<open>\<^verbatim>\<open>element.evaluate(el => el.tagName)\<close>\<close>
  click :: "string \<Rightarrow> unit outcome"  \<comment> \<open>the click and the pause after it\<close>
  removeElement :: "string \<Rightarrow> unit outcome"  \<comment> \<open>the \<^verbatim>\<open>evaluate\<close> that removes the overlay\<close>
  screenshot :: "string \<Rightarrow> unit outcome"  \<comment> \<open>full-page screenshot to a path\<close>
  queryAll :: "string \<Rightarrow> nat outcome"  \<comment> \<open>\<^verbatim>\<open>page.$$(sel)\<close>: how many elements\<close>
  elementScreenshot :: "string \<Rightarrow> string \<Rightarrow> unit outcome"
    \<comment> \<open>screenshot of the first element of a selector, to a path\<close>
  textContent :: "string \<Rightarrow> string option outcome"
    \<comment> \<open>\<^verbatim>\<open>locator(sel).first().textContent()\<close>\<close>
  outerHTML :: "string outcome"  \<comment> \<open>\<^verbatim>\<open>page.evaluate(() => document.body.outerHTML)\<close>\<close>
  close :: "unit outcome"

subsection \<open>Bypass.ts\<close>

definition COMMON_POPUP_SELECTORS :: "string list" where
  \<open>COMMON_POPUP_SELECTORS =
     [''text=/accept|i agree|ok|got it/i'',
      ''[class*="cookie"] button'',
      ''[id*="cookie"] button'',
      ''[aria-label*="close"]'',
      ''[class*="modal-close"]'',
      ''[class*="popup-close"]'',
      ''[class*="dismiss"]'',
      ''button[title*="Close"]'',
      ''button:has-text("No thanks")'',
      ''div[style*="position: fixed"][style*="z-index: 9999"]'',
      ''div[id*="backdrop"]'']\<close>

text \<open>The body of the \<^verbatim>\<open>try\<close> block for one selector.\<close>
definition bypass_try :: "Page \<Rightarrow> string \<Rightarrow> unit outcome" where
  "bypass_try page selector =
     (case boundingBox page selector of
        Inl e \<Rightarrow> Inl e
      | Inr box \<Rightarrow>
          if box then
            (case tagName page selector of
               Inl e \<Rightarrow> Inl e
             | Inr tag \<Rightarrow>
                 if tag = ''BUTTON'' \<or> tag = ''A'' \<or> str_includes selector ''text='' then
                   click page selector
                 else if tag = ''DIV'' \<or> tag = ''SECTION'' then
                   removeElement page selector
                 else Inr ())
          else Inr ())"

text \<open>
  \<open>attemptBypass\<close>: the loop over the selectors; the \<^verbatim>\<open>catch\<close> block is empty, so a
  selector that throws is passed over and the loop goes on.
\<close>
definition attemptBypass :: "Page \<Rightarrow> unit outcome" where
  "attemptBypass page =
     fold (\<lambda>selector acc.
             case acc of
               Inl e \<Rightarrow> Inl e
             | Inr u \<Rightarrow> (case bypass_try page selector of Inl e \<Rightarrow> Inr () | Inr v \<Rightarrow> Inr ()))
          COMMON_POPUP_SELECTORS (Inr ())"

subsection \<open>LogoCapture.ts\<close>

definition LOGO_HEURISTICS_SELECTORS :: "string list" where
  \<open>LOGO_HEURISTICS_SELECTORS =
     [''header :is(img, svg)[alt*="logo" i], header :is(img, svg)[class*="logo" i]'',
      ''header :is(img, svg)[id*="logo" i], header :is(img, svg)[aria-label*="logo" i]'',
      ''[class*="brand-logo" i], [id*="header-logo" i], [class*="site-logo" i]'',
      ''body > header img, body > .nav img, body > .header img'']\<close>

text \<open>
  The search loop: the first selector with at least one element wins (\<^verbatim>\<open>break\<close>); a
  selector that throws is passed over. The element is named by its selector.
\<close>
fun findLogoElement :: "Page \<Rightarrow> string list \<Rightarrow> string option" where
  "findLogoElement page [] = None"
| "findLogoElement page (selector # rest) =
     (case queryAll page selector of
        Inl e \<Rightarrow> findLogoElement page rest
      | Inr n \<Rightarrow> if n > 0 then Some selector else findLogoElement page rest)"

text \<open>
  \<open>captureLogo\<close>: \<open>Inr None\<close> is the return value \<^verbatim>\<open>null\<close>. Everything after the search
  is inside one \<^verbatim>\<open>try\<close> block whose \<^verbatim>\<open>catch\<close> returns \<^verbatim>\<open>null\<close>.
\<close>
definition captureLogo ::
  "Runtime \<Rightarrow> Page \<Rightarrow> jsval \<Rightarrow> string \<Rightarrow> string \<Rightarrow> string option outcome" where
  "captureLogo rt page baseName outputDir subFolder =
     (case findLogoElement page LOGO_HEURISTICS_SELECTORS of
        None \<Rightarrow> Inr None
      | Some logoElement \<Rightarrow>
          (case getImagePath rt outputDir subFolder baseName logo_type 1 of
             Inl e \<Rightarrow> Inr None
           | Inr p \<Rightarrow>
               (case ensureDir rt (path_join rt [outputDir, subFolder]) of
                  Inl e \<Rightarrow> Inr None
                | Inr u \<Rightarrow>
                    (case elementScreenshot page logoElement (fullPath p) of
                       Inl e \<Rightarrow> Inr None
                     | Inr v \<Rightarrow> Inr (Some (relativePath p))))))"

subsection \<open>AISmartScrape.ts\<close>

text \<open>\<^verbatim>\<open>result.candidates?.[0]\<close>, then \<^verbatim>\<open>candidate.content?.parts?.[0]?.text\<close>.\<close>
definition candidate_text :: "ai_body \<Rightarrow> string option" where
  "candidate_text result =
     (case candidates result of
        None \<Rightarrow> None
      | Some [] \<Rightarrow> None
      | Some (candidate # cs) \<Rightarrow>
          (case content candidate of
             None \<Rightarrow> None
           | Some c \<Rightarrow>
               (case parts c of
                  None \<Rightarrow> None
                | Some [] \<Rightarrow> None
                | Some (part # ps) \<Rightarrow> part_text part)))"

text \<open>
  \<open>aiSmartScrape\<close>: \<open>Inr None\<close> is the return value \<^verbatim>\<open>null\<close>. Every failure is answered by
  \<^verbatim>\<open>return null\<close>; the HTML sent is the first 50000 characters of the body.
\<close>
definition aiSmartScrape :: "Runtime \<Rightarrow> Page \<Rightarrow> string \<Rightarrow> string option outcome" where
  "aiSmartScrape rt page apiKey =
     (if apiKey = [] then Inr None
      else
        (case outerHTML page of
           Inl e \<Rightarrow> Inr None
         | Inr html \<Rightarrow>
             (let pageHtml = take (min (length html) 50000) html in
              case fetch rt apiKey pageHtml of
                Inl e \<Rightarrow> Inr None
              | Inr response \<Rightarrow>
                  if \<not> ok response then Inr None
                  else
                    (case json response of
                       Inl e \<Rightarrow> Inr None
                     | Inr result \<Rightarrow>
                         (case candidate_text result of
                            Some jsonText \<Rightarrow>
                              if jsonText \<noteq> [] then Inr (Some jsonText) else Inr None
                          | None \<Rightarrow> Inr None)))))"

subsection \<open>ScraperEngine: selector extraction\<close>

text \<open>\<^verbatim>\<open>spec.split(',').map(s => s.trim()).filter(s => s)\<close>\<close>
definition selectorList :: "string \<Rightarrow> string list" where
  "selectorList spec = filter (\<lambda>s. s \<noteq> []) (map trim (split_on CHR '','' spec))"

text \<open>
  The destructuring
  \<^verbatim>\<open>[name, query] = selector.includes('=') ? selector.split('=', 2).map(s => s.trim()) : ['data', selector]\<close>;
  a missing array element is undefined.
\<close>
definition nameAndQuery :: "string \<Rightarrow> string option \<times> string option" where
  "nameAndQuery selector =
     (let pieces = (if str_includes selector ''=''
                    then map trim (split_limit CHR ''='' 2 selector)
                    else [''data'', selector])
      in (case pieces of
            [] \<Rightarrow> (None, None)
          | [name] \<Rightarrow> (Some name, None)
          | name # query # rest \<Rightarrow> (Some name, Some query)))"

datatype SelectorType = css_type | xpath_type

text \<open>
  The body of the loop of \<open>scrapeCustomData\<close> for one selector. \<^verbatim>\<open>data[name] = v\<close> writes
  a property. A selector with an empty query is passed over.
\<close>
definition scrapeOne :: "Page \<Rightarrow> SelectorType \<times> string \<Rightarrow> jsobj \<Rightarrow> jsobj" where
  "scrapeOne page ts data =
     (case nameAndQuery (snd ts) of
        (name, query) \<Rightarrow>
          (case query of
             None \<Rightarrow> data
           | Some q \<Rightarrow>
               if q = [] then data
               else
                 (let key = (case name of Some n \<Rightarrow> n | None \<Rightarrow> ''undefined'');
                      locator = (case fst ts of css_type \<Rightarrow> q | xpath_type \<Rightarrow> ''xpath='' @ q)
                  in case textContent page locator of
                       Inl e \<Rightarrow> AList.update key Null data
                     | Inr None \<Rightarrow> data
                     | Inr (Some txt) \<Rightarrow>
                         if txt \<noteq> [] then AList.update key (Str (trim txt)) data
                         else data)))"

text \<open>
  \<^verbatim>\<open>(row.CSSSelector || this.config.selectors.css).split(',')\<close>: the receiver of \<^verbatim>\<open>split\<close> is
  the cell of the row when it is truthy, and the global spec, a string, otherwise. A
  truthy cell that is not a string (a number, \<^verbatim>\<open>true\<close>, a date) has no method
  \<^verbatim>\<open>split\<close>: the call throws a \<^verbatim>\<open>TypeError\<close>. \<open>which\<close> and \<open>globalName\<close> name the two
  operands in the message.
\<close>
definition selectorSpec :: "string \<Rightarrow> string \<Rightarrow> jsval \<Rightarrow> string \<Rightarrow> string outcome" where
  "selectorSpec which globalName v globalSpec =
     (case js_or v (Str globalSpec) of
        Str spec \<Rightarrow> Inr spec
      | Null \<Rightarrow> Inl ''Cannot read properties of null (reading 'split')''
      | Undefined \<Rightarrow> Inl ''Cannot read properties of undefined (reading 'split')''
      | Number q \<Rightarrow>
          Inl (''(row.'' @ which @ '' || this.config.selectors.'' @ globalName
               @ '').split is not a function'')
      | Boolean b \<Rightarrow>
          Inl (''(row.'' @ which @ '' || this.config.selectors.'' @ globalName
               @ '').split is not a function'')
      | Object n \<Rightarrow>
          Inl (''(row.'' @ which @ '' || this.config.selectors.'' @ globalName
               @ '').split is not a function''))"

text \<open>
  \<open>scrapeCustomData\<close>. The two selector lists are computed first, the CSS list before
  the XPath list; then the loop runs over all selectors.
\<close>
definition scrapeCustomData :: "ScraperConfig \<Rightarrow> Page \<Rightarrow> InputRow \<Rightarrow> jsobj outcome" where
  "scrapeCustomData cfg page row =
     (case selectorSpec ''CSSSelector'' ''css'' (CSSSelector row) (css (selectors cfg)) of
        Inl e \<Rightarrow> Inl e
      | Inr cssSpec \<Rightarrow>
          (case selectorSpec ''XPathSelector'' ''xpath'' (XPathSelector row)
                  (xpath (selectors cfg)) of
             Inl e \<Rightarrow> Inl e
           | Inr xpathSpec \<Rightarrow>
               (let cssSelectors = selectorList cssSpec;
                    xpathSelectors = selectorList xpathSpec;
                    allSelectors = map (\<lambda>s. (css_type, s)) cssSelectors
                                   @ map (\<lambda>s. (xpath_type, s)) xpathSelectors
                in Inr (fold (scrapeOne page) allSelectors []))))"

subsection \<open>ScraperEngine: the pipeline for one URL\<close>

text \<open>The calls \<open>scrapeUrl\<close> makes on the browser, the page and its helpers, in order.\<close>
datatype call =
  NewPage | Goto jsval | WaitForLoadState | AttemptBypass | PageScreenshot string
  | CaptureLogo | ScrapeCustomData | AiSmartScrape | PageClose

text \<open>The initial value of \<^verbatim>\<open>result\<close>.\<close>
definition initial_result :: ScrapeResult where
  "initial_result =
     \<lparr>ScreenshotFile = [], LogoFile = [], ScrapedData = ''{}'', Status = ERROR,
      ErrorMessage = ''Start of scrape.''\<rparr>"

text \<open>
  \<^verbatim>\<open>selectorsProvided\<close>: the \<^verbatim>\<open>||\<close> chain over the two row selectors and the two global
  selectors, read as a condition.
\<close>
definition selectorsProvided :: "ScraperConfig \<Rightarrow> InputRow \<Rightarrow> bool" where
  "selectorsProvided cfg firstRow =
     truthy (js_or (CSSSelector firstRow)
              (js_or (XPathSelector firstRow)
                (js_or (Str (css (selectors cfg))) (Str (xpath (selectors cfg))))))"

text \<open>
  The end of the \<^verbatim>\<open>try\<close> block: selector data, when there is any, is written over the
  extracted data; then the status is SUCCESS and the message is cleared.
\<close>
definition finalize :: "Runtime \<Rightarrow> ScrapeResult \<Rightarrow> jsobj \<Rightarrow> ScrapeResult" where
  "finalize rt result scrapedData =
     (if scrapedData \<noteq> [] then result\<lparr>ScrapedData := JSON_stringify rt scrapedData\<rparr>
      else result)\<lparr>Status := SUCCESS, ErrorMessage := []\<rparr>"

text \<open>Data scraping, steps 4 and 5 of the \<^verbatim>\<open>try\<close> block, and its end.\<close>
definition extractData ::
  "Runtime \<Rightarrow> ScraperConfig \<Rightarrow> Page \<Rightarrow> InputRow \<Rightarrow> ScrapeResult \<Rightarrow> call list
     \<Rightarrow> unit outcome \<times> ScrapeResult \<times> call list" where
  "extractData rt cfg page firstRow result calls =
     (if selectorsProvided cfg firstRow then
        (case scrapeCustomData cfg page firstRow of
           Inl e \<Rightarrow> (Inl e, result, calls @ [ScrapeCustomData])
         | Inr scrapedData \<Rightarrow>
             (Inr (), finalize rt result scrapedData, calls @ [ScrapeCustomData]))
      else if useAISmartScrape cfg then
        (case aiSmartScrape rt page (aiApiKey cfg) of
           Inl e \<Rightarrow> (Inl e, result, calls @ [AiSmartScrape])
         | Inr aiResultJson \<Rightarrow>
             (Inr (),
              finalize rt
                (case aiResultJson of
                   None \<Rightarrow> result
                 | Some j \<Rightarrow> if j \<noteq> [] then result\<lparr>ScrapedData := j\<rparr> else result) [],
              calls @ [AiSmartScrape]))
      else (Inr (), finalize rt result [], calls))"

text \<open>
  The \<^verbatim>\<open>try\<close> block of \<open>scrapeUrl\<close>. \<open>browser\<close> is the field \<^verbatim>\<open>this.browser\<close>: \<open>None\<close> is
  \<^verbatim>\<open>null\<close>, and \<open>Some np\<close> is a browser whose \<^verbatim>\<open>newPage()\<close> has the outcome \<open>np\<close>. The
  result is whether the block threw, the value of \<^verbatim>\<open>result\<close> at that point, the page if it
  was opened, and the calls made. The failed network-idle wait is caught on the spot.
\<close>
definition scrapeUrl_try ::
  "Runtime \<Rightarrow> ScraperConfig \<Rightarrow> Page outcome option \<Rightarrow> jsval \<Rightarrow> InputRow
     \<Rightarrow> unit outcome \<times> ScrapeResult \<times> Page option \<times> call list" where
  "scrapeUrl_try rt cfg browser url firstRow =
     (let result = initial_result in
      case browser of
        None \<Rightarrow> (Inl ''Browser is not initialized.'', result, None, [])
      | Some (Inl e) \<Rightarrow> (Inl e, result, None, [NewPage])
      | Some (Inr page) \<Rightarrow>
          (case goto page url of
             Inl e \<Rightarrow> (Inl e, result, Some page, [NewPage, Goto url])
           | Inr u \<Rightarrow>
               (let calls1 = [NewPage, Goto url, WaitForLoadState, AttemptBypass] in
                case attemptBypass page of
                  Inl e \<Rightarrow> (Inl e, result, Some page, calls1)
                | Inr v \<Rightarrow>
                    (case getImagePath rt (outputDirPath cfg) (imageSubFolder cfg)
                            (BaseName firstRow) screenshot_type 1 of
                       Inl e \<Rightarrow> (Inl e, result, Some page, calls1)
                     | Inr ss \<Rightarrow>
                         (let calls2 = calls1 @ [PageScreenshot (fullPath ss)]
                          in case screenshot page (fullPath ss) of
                               Inl e \<Rightarrow> (Inl e, result, Some page, calls2)
                             | Inr w \<Rightarrow>
                                 (let result1 = result\<lparr>ScreenshotFile := relativePath ss\<rparr>;
                                      calls3 = calls2 @ [CaptureLogo]
                                  in case captureLogo rt page (BaseName firstRow)
                                            (outputDirPath cfg) (imageSubFolder cfg) of
                                       Inl e \<Rightarrow> (Inl e, result1, Some page, calls3)
                                     | Inr logoRelPath \<Rightarrow>
                                         (let result2 =
                                                result1\<lparr>LogoFile := or_string logoRelPath []\<rparr>
                                          in case extractData rt cfg page firstRow result2
                                                    calls3 of
                                               (r, result3, calls4) \<Rightarrow>
                                                 (r, result3, Some page, calls4))))))))"

text \<open>
  \<open>scrapeUrl\<close>: the \<^verbatim>\<open>try\<close> block, the \<^verbatim>\<open>catch\<close> block (message and status ERROR) and the
  \<^verbatim>\<open>finally\<close> block, which closes the page if there is one and then returns the result. If
  closing the page throws, the \<^verbatim>\<open>return\<close> is not reached and \<open>scrapeUrl\<close> throws.
\<close>
definition scrapeUrl ::
  "Runtime \<Rightarrow> ScraperConfig \<Rightarrow> Page outcome option \<Rightarrow> jsval \<Rightarrow> InputRow
     \<Rightarrow> ScrapeResult outcome \<times> call list" where
  "scrapeUrl rt cfg browser url firstRow =
     (case scrapeUrl_try rt cfg browser url firstRow of
        (r, result, page, calls) \<Rightarrow>
          (let result' = (case r of
                            Inl msg \<Rightarrow> result\<lparr>ErrorMessage := msg, Status := ERROR\<rparr>
                          | Inr u \<Rightarrow> result)
           in case page of
                None \<Rightarrow> (Inr result', calls)
              | Some pg \<Rightarrow>
                  (case close pg of
                     Inl e \<Rightarrow> (Inl e, calls @ [PageClose])
                   | Inr u \<Rightarrow> (Inr result', calls @ [PageClose]))))"

subsection \<open>ScraperEngine: the worker pool and the run\<close>

text \<open>
  The workers share one cursor into \<^verbatim>\<open>urlEntries\<close>; each pulled entry is scraped and its
  result stored under its URL when its pipeline completes. \<open>schedule\<close> lists the pulled
  queue positions in the order of completion (a run that is not cancelled completes
  every position once; a cancelled run completes a prefix of the queue). \<open>newPage\<close> gives
  the outcome of \<^verbatim>\<open>browser.newPage()\<close> for the worker that handles a URL. A pipeline that
  throws rejects \<^verbatim>\<open>Promise.all\<close>. \<open>scrapeNext_step\<close> is the body of the \<^verbatim>\<open>while\<close> loop for
  one pulled entry, \<open>scrapeNext\<close> the whole pool.
\<close>
definition scrapeNext_step ::
  "Runtime \<Rightarrow> ScraperConfig \<Rightarrow> (jsval \<Rightarrow> Page outcome) \<Rightarrow> (jsval \<times> InputRow) list
     \<Rightarrow> nat \<Rightarrow> ScrapeMap outcome \<Rightarrow> ScrapeMap outcome" where
  "scrapeNext_step rt cfg newPage urlEntries i acc =
     (case acc of
        Inl e \<Rightarrow> Inl e
      | Inr scrapeResults \<Rightarrow>
          if i < length urlEntries then
            (case urlEntries ! i of
               (url, firstRow) \<Rightarrow>
                 (case fst (scrapeUrl rt cfg (Some (newPage url)) url firstRow) of
                    Inl e \<Rightarrow> Inl e
                  | Inr result \<Rightarrow> Inr (AList.update url result scrapeResults)))
          else Inr scrapeResults)"

definition scrapeNext ::
  "Runtime \<Rightarrow> ScraperConfig \<Rightarrow> (jsval \<Rightarrow> Page outcome) \<Rightarrow> (jsval \<times> InputRow) list
     \<Rightarrow> nat list \<Rightarrow> ScrapeMap outcome" where
  "scrapeNext rt cfg newPage urlEntries schedule =
     fold (scrapeNext_step rt cfg newPage urlEntries) schedule (Inr [])"

text \<open>
  Step 4 of \<open>start\<close>, "Map Results Back to All Input Rows": \<^verbatim>\<open>finalScrapeMap\<close> starts as a
  copy of \<^verbatim>\<open>scrapeResults\<close>; then, for every row but the one at index 0 whose URL is in
  \<^verbatim>\<open>finalScrapeMap\<close>, the entry of that URL is replaced by the scraped result relabelled
  DUPLICATE (\<open>relabel\<close> is the object literal that copies the result and overwrites the
  status and the message).
\<close>
definition relabel :: "ScrapeResult \<Rightarrow> ScrapeResult" where
  "relabel existingResult =
     existingResult\<lparr>Status := DUPLICATE,
       ErrorMessage := ''Result shared from first instance of this URL.''\<rparr>"

definition remap :: "InputRow list \<Rightarrow> ScrapeMap \<Rightarrow> ScrapeMap" where
  "remap inputRows scrapeResults =
     (let finalScrapeMap0 =
            fold (\<lambda>(url, result) m. AList.update url result m) scrapeResults []
      in fold (\<lambda>(index, row) finalScrapeMap.
                 if index = 0 \<or> map_of finalScrapeMap (URL row) = None then finalScrapeMap
                 else
                   (case map_of scrapeResults (URL row) of
                      None \<Rightarrow> finalScrapeMap
                    | Some existingResult \<Rightarrow>
                        AList.update (URL row) (relabel existingResult) finalScrapeMap))
           (enumerate 0 inputRows) finalScrapeMap0)"

text \<open>
  \<open>start\<close>: \<open>Some rows\<close> is the table written to the output file; \<open>None\<close> is the \<^verbatim>\<open>catch\<close>
  block ("Fatal scraping error"), where nothing is written. \<open>parsed\<close> is what reading and
  parsing the input file gives (see \<open>parseInputCsv\<close>). A negative pool size makes
  \<^verbatim>\<open>new Array\<close> throw; an empty pool scrapes nothing.
\<close>
definition start ::
  "Runtime \<Rightarrow> ScraperConfig \<Rightarrow> jsobj list outcome \<Rightarrow> (jsval \<Rightarrow> Page outcome) \<Rightarrow> nat list
     \<Rightarrow> OutputRow list option" where
  "start rt cfg parsed newPage schedule =
     (case parseInputCsv rt parsed of
        Inl e \<Rightarrow> None
      | Inr (uniqueUrls, inputRows) \<Rightarrow>
          (case ensureDir rt (path_join rt [outputDirPath cfg, imageSubFolder cfg]) of
             Inl e \<Rightarrow> None
           | Inr u \<Rightarrow>
               (case launch rt of
                  Inl e \<Rightarrow> None
                | Inr v \<Rightarrow>
                    (let poolSize = min (concurrency cfg) (int (length uniqueUrls)) in
                     if poolSize < 0 then None
                     else
                       (case scrapeNext rt cfg newPage uniqueUrls
                               (if poolSize = 0 then [] else schedule) of
                          Inl e \<Rightarrow> None
                        | Inr scrapeResults \<Rightarrow>
                            (let finalScrapeMap = remap inputRows scrapeResults;
                                 outputRows = generateOutputCsv inputRows finalScrapeMap
                             in case writeFileSync rt of
                                  Inl e \<Rightarrow> None
                                | Inr w \<Rightarrow> Some outputRows))))))"

section \<open>The statements of the specification\<close>

text \<open>"The value is a string."\<close>
definition is_string :: "jsval \<Rightarrow> bool" where
  "is_string v = (case v of Str s \<Rightarrow> True | _ \<Rightarrow> False)"

text \<open>
  A selector cell of the row that cannot be split into selectors: the cell is truthy, so
  that it is taken instead of the global spec, and it is not a string. The CSS cell is
  read first.
\<close>
definition selector_fatal :: "InputRow \<Rightarrow> string option" where
  "selector_fatal row =
     (if truthy (CSSSelector row) \<and> \<not> is_string (CSSSelector row)
      then Some ''(row.CSSSelector || this.config.selectors.css).split is not a function''
      else if truthy (XPathSelector row) \<and> \<not> is_string (XPathSelector row)
      then Some ''(row.XPathSelector || this.config.selectors.xpath).split is not a function''
      else None)"


text \<open>
  The failures that end the \<^verbatim>\<open>try\<close> block before the extraction stage, for any value of
  the field \<^verbatim>\<open>this.browser\<close>.
\<close>
definition early_fatal ::
  "Runtime \<Rightarrow> ScraperConfig \<Rightarrow> Page outcome option \<Rightarrow> jsval \<Rightarrow> InputRow \<Rightarrow> string option" where
  "early_fatal rt cfg browser url firstRow =
     (case browser of
        None \<Rightarrow> Some ''Browser is not initialized.''
      | Some (Inl e) \<Rightarrow> Some e
      | Some (Inr page) \<Rightarrow>
          (case goto page url of
             Inl e \<Rightarrow> Some e
           | Inr u \<Rightarrow>
               (case getImagePath rt (outputDirPath cfg) (imageSubFolder cfg)
                       (BaseName firstRow) screenshot_type 1 of
                  Inl e \<Rightarrow> Some e
                | Inr ss \<Rightarrow>
                    (case screenshot page (fullPath ss) of
                       Inl e \<Rightarrow> Some e
                     | Inr v \<Rightarrow> None))))"

text \<open>
  "The row or the global configuration supplies a non-empty CSS or XPath selector spec."
\<close>
definition supplies_selector :: "ScraperConfig \<Rightarrow> InputRow \<Rightarrow> bool" where
  "supplies_selector cfg row =
     (truthy (CSSSelector row) \<or> truthy (XPathSelector row)
      \<or> css (selectors cfg) \<noteq> [] \<or> xpath (selectors cfg) \<noteq> [])"

text \<open>
  "The AI call fails": the API credential is missing, the HTML of the page cannot be read,
  the request fails, the HTTP status is an error, or the response is malformed or empty.
\<close>
definition ai_call_fails :: "Runtime \<Rightarrow> Page \<Rightarrow> string \<Rightarrow> bool" where
  "ai_call_fails rt page apiKey =
     (apiKey = []
      \<or> (case outerHTML page of
            Inl e \<Rightarrow> True
          | Inr html \<Rightarrow>
              (case fetch rt apiKey (take 50000 html) of
                 Inl e \<Rightarrow> True
               | Inr response \<Rightarrow>
                   \<not> ok response
                   \<or> (case json response of
                         Inl e \<Rightarrow> True
                       | Inr body \<Rightarrow>
                           (case candidate_text body of None \<Rightarrow> True | Some t \<Rightarrow> t = [])))))"

text \<open>"The returned JSON text": the text of the first part of the first candidate.\<close>
definition ai_json_text :: "Runtime \<Rightarrow> Page \<Rightarrow> string \<Rightarrow> string" where
  "ai_json_text rt page apiKey =
     (case outerHTML page of
        Inl e \<Rightarrow> []
      | Inr html \<Rightarrow>
          (case fetch rt apiKey (take 50000 html) of
             Inl e \<Rightarrow> []
           | Inr response \<Rightarrow>
               (case json response of
                  Inl e \<Rightarrow> []
                | Inr body \<Rightarrow> (case candidate_text body of None \<Rightarrow> [] | Some t \<Rightarrow> t))))"

text \<open>What the pool stores for a URL of the queue: the result of its pipeline, if it returns one.\<close>
definition stored ::
  "Runtime \<Rightarrow> ScraperConfig \<Rightarrow> (jsval \<Rightarrow> Page outcome) \<Rightarrow> (jsval \<times> InputRow) list
     \<Rightarrow> jsval \<Rightarrow> ScrapeResult option" where
  "stored rt cfg newPage urlEntries u =
     (case map_of urlEntries u of
        None \<Rightarrow> None
      | Some firstRow \<Rightarrow>
          (case fst (scrapeUrl rt cfg (Some (newPage u)) u firstRow) of
             Inl e \<Rightarrow> None
           | Inr r \<Rightarrow> Some r))"

section \<open>Concrete inputs\<close>

text \<open>
  A runtime in which every service succeeds; paths are joined with a slash. The text of
  a number is given for the whole numbers, which are the numbers of the examples.
\<close>
definition join_slash :: "string list \<Rightarrow> string" where
  "join_slash ps = foldr (\<lambda>p acc. if acc = [] then p else p @ ''/'' @ acc) ps []"

definition show_whole :: "rat \<Rightarrow> string" where
  "show_whole q = (if q < 0 then ''-'' @ show_nat (nat \<lfloor>- q\<rfloor>) else show_nat (nat \<lfloor>q\<rfloor>))"

definition example_runtime :: Runtime where
  \<open>example_runtime =
     \<lparr>path_join = join_slash, ensureDir = (\<lambda>d. Inr ()),
      JSON_stringify = (\<lambda>obj. ''{"data":"text"}''),
      Number_toString = show_whole, Object_toString = (\<lambda>n. ''[object Object]''),
      fetch = (\<lambda>k h. Inr \<lparr>ok = True, http_status = 200,
                 json = Inr (Body (Some [Candidate (Some (Content (Some
                          [Part (Some ''{"siteName":"Acme"}'')])))]))\<rparr>),
      launch = Inr (), writeFileSync = Inr ()\<rparr>\<close>

text \<open>A page on which every call succeeds, with no popup and no logo.\<close>
definition example_page :: Page where
  "example_page =
     \<lparr>goto = (\<lambda>u. Inr ()), waitForLoadState = Inr (), boundingBox = (\<lambda>s. Inr False),
      tagName = (\<lambda>s. Inr ''DIV''), click = (\<lambda>s. Inr ()), removeElement = (\<lambda>s. Inr ()),
      screenshot = (\<lambda>p. Inr ()), queryAll = (\<lambda>s. Inr 0), elementScreenshot = (\<lambda>s p. Inr ()),
      textContent = (\<lambda>s. Inr (Some ''text'')), outerHTML = Inr ''<body></body>'',
      close = Inr ()\<rparr>"


text \<open>
  A page with an author element: the text of the XPath \<open>//span[@class='author']\<close> is
  "Jane Doe"; every other locator times out.
\<close>
definition author_page :: Page where
  "author_page =
     example_page\<lparr>textContent :=
        (\<lambda>s. if s = ''xpath=//span[@class='author']'' then Inr (Some ''Jane Doe'')
             else Inl ''Timeout 30000ms exceeded.'')\<rparr>"

definition example_config :: ScraperConfig where
  "example_config =
     \<lparr>inputCsvPath = ''in.csv'', outputDirPath = ''out'', imageSubFolder = ''images'',
      selectors = \<lparr>css = [], xpath = []\<rparr>, useAISmartScrape = False, concurrency = 2,
      aiApiKey = []\<rparr>"

text \<open>The same configuration with the AI fallback switched on and an API key.\<close>
definition ai_config :: ScraperConfig where
  "ai_config = example_config\<lparr>useAISmartScrape := True, aiApiKey := ''key''\<rparr>"

text \<open>
  A parsed row of a file with the columns \<^verbatim>\<open>BaseName\<close> and \<^verbatim>\<open>URL\<close>, both cells strings, and
  the input row built from it.
\<close>
definition example_cells :: "string \<Rightarrow> string \<Rightarrow> jsobj" where
  "example_cells b u = [(''BaseName'', Str b), (''URL'', Str u)]"

definition example_row :: "string \<Rightarrow> string \<Rightarrow> InputRow" where
  "example_row b u = inputRow example_runtime (example_cells b u)"

text \<open>
  The three rows of the example of the specification, as parsed and as built; and the
  same with a fourth row whose URL cell is empty, which the parser reads as \<^verbatim>\<open>null\<close>.
\<close>
definition example_data :: "jsobj list" where
  "example_data = [example_cells ''A'' ''u1'', example_cells ''B'' ''u1'', example_cells ''C'' ''u2'']"

definition example_data4 :: "jsobj list" where
  "example_data4 = example_data @ [[(''BaseName'', Str ''D''), (''URL'', Null)]]"

definition example_rows :: "InputRow list" where
  "example_rows = map (inputRow example_runtime) example_data"

definition example_rows4 :: "InputRow list" where
  "example_rows4 = map (inputRow example_runtime) example_data4"

text \<open>
  Rows of files with a selector column: a CSS spec, the XPath entry of the README, and
  a cell \<open>5\<close>, which the parser reads as a number. And the row of the file line \<open>7,u1\<close>,
  whose BaseName is read as a number.
\<close>
definition css_row :: InputRow where
  "css_row =
     inputRow example_runtime
       (example_cells ''A'' ''u1'' @ [(''CSSSelector'', Str ''price=.price, .title'')])"

definition xpath_row :: InputRow where
  "xpath_row =
     inputRow example_runtime
       (example_cells ''A'' ''u1'' @ [(''XPathSelector'', Str ''author=//span[@class='author']'')])"




section \<open>Properties\<close>

subsection \<open>The log buffer\<close>

lemma logMessages_sendProgress: "logMessages (sendProgress st e) = logMessages e"
  by (simp add: sendProgress_def Let_def)

lemma logMessages_log:
  "logMessages (log lvl msg detail now e) =
     (let pushed = logMessages e @
            [\<lparr>level = lvl,
              message = (case detail of
                           Some d \<Rightarrow> if d \<noteq> [] then msg @ '' ('' @ d @ '')'' else msg
                         | None \<Rightarrow> msg),
              timestamp = now\<rparr>]
      in if length pushed > 500 then drop 100 pushed else pushed)"
  by (simp add: log_def Let_def logMessages_sendProgress)

lemma length_log_le:
  "length (logMessages e) \<le> 500 \<Longrightarrow> length (logMessages (log lvl msg detail now e)) \<le> 500"
  by (auto simp add: logMessages_log Let_def)

lemma length_log_all_le:
  "length (logMessages e) \<le> 500 \<Longrightarrow> length (logMessages (log_all cs e)) \<le> 500"
proof (induction cs arbitrary: e)
  case Nil
  then show ?case by (simp add: log_all_def)
next
  case (Cons c cs)
  obtain lvl msg detail now where c: "c = (lvl, msg, detail, now)"
    by (cases c) auto
  have "length (logMessages (log lvl msg detail now e)) \<le> 500"
    using Cons.prems by (rule length_log_le)
  then have "length (logMessages (log_all cs (log lvl msg detail now e))) \<le> 500"
    by (rule Cons.IH)
  then show ?case by (simp add: log_all_def c)
qed

subsection \<open>Objects and the output table\<close>

lemma map_of_fold_update:
  "map_of (fold (\<lambda>(k, v) acc. AList.update k v acc) xs acc) = map_of acc ++ map_of (rev xs)"
proof (induction xs arbitrary: acc)
  case Nil
  then show ?case by simp
next
  case (Cons kv xs)
  obtain k v where kv: "kv = (k, v)" by (cases kv)
  have "map_of (fold (\<lambda>(k, v) acc. AList.update k v acc) (kv # xs) acc)
        = map_of (AList.update k v acc) ++ map_of (rev xs)"
    by (simp add: kv Cons.IH)
  also have "\<dots> = map_of acc ++ map_of (rev (kv # xs))"
    by (rule ext) (simp add: kv update_conv' map_add_def split: option.splits)
  finally show ?case .
qed

lemma map_of_spread: "map_of (spread a b) = map_of a ++ map_of (rev b)"
  by (simp add: spread_def map_of_fold_update)

lemma set_fold_set_add: "set (fold set_add xs acc) = set xs \<union> set acc"
  by (induction xs arbitrary: acc) (auto simp: set_add_def)

lemma map_of_fill: "map_of (map (\<lambda>h. (h, f h)) hs) k = (if k \<in> set hs then Some (f k) else None)"
  by (induction hs) auto

lemma fold_snoc_map: "fold (\<lambda>x acc. acc @ [f x]) xs acc = acc @ map f xs"
  by (induction xs arbitrary: acc) auto

lemma generateOutputCsv_map:
  "generateOutputCsv inputRows m = map (outputRow_of (finalHeaders_of inputRows) m) inputRows"
  by (simp add: generateOutputCsv_def Let_def fold_snoc_map)

lemma result_headers_in_final: "set result_headers \<subseteq> set (finalHeaders_of inputRows)"
  by (simp add: finalHeaders_of_def set_fold_set_add)

lemma js_or_Str: "js_or (Str s) (Str []) = Str s"
  by (simp add: js_or_def truthy_def)

lemma obj_get_spread_result:
  "obj_get (spread obj (result_obj r)) k =
     (if k = ''ScreenshotFile'' then Str (ScreenshotFile r)
      else if k = ''LogoFile'' then Str (LogoFile r)
      else if k = ''ScrapedData'' then Str (ScrapedData r)
      else if k = ''Status'' then Str (Status_string (Status r))
      else if k = ''ErrorMessage'' then Str (ErrorMessage r)
      else obj_get obj k)"
  by (simp add: obj_get_def map_of_spread result_obj_def map_add_def)

lemma obj_get_spread_error:
  "obj_get (spread obj [(''Status'', s), (''ErrorMessage'', m)]) k =
     (if k = ''Status'' then s
      else if k = ''ErrorMessage'' then m
      else obj_get obj k)"
  by (simp add: obj_get_def map_of_spread map_add_def)

lemma cell_outputRow_of:
  "cell (outputRow_of hs m row) k =
     (if k \<in> set hs then
        Some (js_or
          (case map_of m (URL row) of
             Some result \<Rightarrow> obj_get (spread row (result_obj result)) k
           | None \<Rightarrow> obj_get (spread row
                [(''Status'', Str ''ERROR''),
                 (''ErrorMessage'', Str ''Internal error: URL not found in results map.'')]) k)
          (Str []))
      else None)"
  by (simp add: cell_def outputRow_of_def Let_def map_of_fill split: option.splits)

lemma Status_in_final: "''Status'' \<in> set (finalHeaders_of inputRows)"
  using result_headers_in_final [of inputRows] by (auto simp: result_headers_def)

lemma ErrorMessage_in_final: "''ErrorMessage'' \<in> set (finalHeaders_of inputRows)"
  using result_headers_in_final [of inputRows] by (auto simp: result_headers_def)

lemma Status_string_nonempty: "Status_string s \<noteq> []"
  by (cases s) (simp_all add: Status_string_def)

lemma cell_Status:
  "cell (outputRow_of (finalHeaders_of inputRows) m row) ''Status'' =
     Some (Str (case map_of m (URL row) of
                  Some result \<Rightarrow> Status_string (Status result)
                | None \<Rightarrow> ''ERROR''))"
  by (simp add: cell_outputRow_of Status_in_final obj_get_spread_result obj_get_spread_error
      js_or_Str split: option.splits)

lemma cell_ErrorMessage:
  "cell (outputRow_of (finalHeaders_of inputRows) m row) ''ErrorMessage'' =
     Some (Str (case map_of m (URL row) of
                  Some result \<Rightarrow> ErrorMessage result
                | None \<Rightarrow> ''Internal error: URL not found in results map.''))"
  by (simp add: cell_outputRow_of ErrorMessage_in_final obj_get_spread_result obj_get_spread_error
      js_or_Str split: option.splits)

lemma keys_row_in_final:
  "row \<in> set inputRows \<Longrightarrow> fst ` set row \<subseteq> set (finalHeaders_of inputRows)"
proof -
  have gen: "\<And>acc. set (fold (\<lambda>row allHeaders. fold set_add (map fst row) allHeaders) rows acc)
       = (\<Union>r \<in> set rows. fst ` set r) \<union> set acc" for rows :: "InputRow list"
    by (induction rows) (auto simp: set_fold_set_add)
  assume "row \<in> set inputRows"
  then show ?thesis
    by (auto simp: finalHeaders_of_def set_fold_set_add gen)
qed

text \<open>
  A built row has the four named properties, and each property of a built row holds the
  cell of the file when the file has the column.
\<close>
lemma keys_inputRow:
  "fst ` set (inputRow rt row) =
     {''BaseName'', ''URL'', ''CSSSelector'', ''XPathSelector''} \<union> fst ` set row"
proof -
  have "dom (map_of (inputRow rt row)) =
     {''BaseName'', ''URL'', ''CSSSelector'', ''XPathSelector''} \<union> dom (map_of (rev row))"
    unfolding inputRow_def map_of_spread by auto
  then show ?thesis
    by (simp add: dom_map_of_conv_image_fst)
qed

lemma URL_in_keys: "''URL'' \<in> fst ` set (inputRow rt row)"
  by (simp add: keys_inputRow)

lemma cell_input_column:
  assumes "k \<notin> set result_headers"
  shows "cell (outputRow_of hs m row) k =
     (if k \<in> set hs then Some (js_or (obj_get row k) (Str [])) else None)"
  using assms
  by (auto simp add: cell_outputRow_of obj_get_spread_result obj_get_spread_error
      result_headers_def split: option.splits)

subsection \<open>Mapping results back to the rows\<close>

lemma map_of_rev_distinct: "distinct (map fst xs) \<Longrightarrow> map_of (rev xs) = map_of xs"
proof (induction xs)
  case Nil
  then show ?case by simp
next
  case (Cons kv xs)
  obtain k v where kv: "kv = (k, v)" by (cases kv)
  from Cons.prems have notin: "k \<notin> fst ` set xs" and d: "distinct (map fst xs)"
    by (auto simp: kv)
  have "map_of xs k = None" using notin by (simp add: map_of_eq_None_iff)
  then show ?case
    using Cons.IH [OF d]
    by (auto simp: kv map_add_def fun_eq_iff split: option.splits)
qed

lemma remap_loop:
  "0 < n \<Longrightarrow>
   map_of (fold (\<lambda>(index, row) finalScrapeMap.
                 if index = 0 \<or> map_of finalScrapeMap (URL row) = None then finalScrapeMap
                 else
                   (case map_of sr (URL row) of
                      None \<Rightarrow> finalScrapeMap
                    | Some existingResult \<Rightarrow>
                        AList.update (URL row) (relabel existingResult) finalScrapeMap))
           (enumerate n rows) fm) u =
   (if u \<in> URL ` set rows \<and> map_of fm u \<noteq> None \<and> map_of sr u \<noteq> None
    then map_option relabel (map_of sr u) else map_of fm u)"
proof (induction rows arbitrary: n fm)
  case Nil
  then show ?case by simp
next
  case (Cons r rows)
  have n: "0 < Suc n" by simp
  show ?case
    using Cons.prems
    by (simp add: Cons.IH [OF n] update_conv' split: option.splits) auto
qed

lemma remap_lookup:
  assumes "distinct (map fst sr)"
  shows "map_of (remap inputRows sr) u =
     (if u \<in> URL ` set (tl inputRows) then map_option relabel (map_of sr u) else map_of sr u)"
proof (cases inputRows)
  case Nil
  then show ?thesis
    by (simp add: remap_def map_of_fold_update map_of_rev_distinct [OF assms])
next
  case (Cons r rows)
  have one: "0 < (1::nat)" by simp
  show ?thesis
    unfolding remap_def Let_def Cons
    by (simp add: enumerate_simps remap_loop [OF one, simplified] map_of_fold_update
        map_of_rev_distinct [OF assms])
qed

text \<open>
  Every row whose URL has a scraped result and occurs again after the first row of the
  table is written with status DUPLICATE, whether or not the row is the first of its URL.
\<close>
lemma relabelled_rows:
  assumes "distinct (map fst sr)" and "map_of sr (URL row) = Some r"
    and "URL row \<in> URL ` set (tl inputRows)"
  shows "cell (outputRow_of (finalHeaders_of inputRows) (remap inputRows sr) row) ''Status''
           = Some (Str ''DUPLICATE'')"
  using assms(2,3)
  by (simp add: cell_Status remap_lookup [OF assms(1)] relabel_def Status_string_def)

subsection \<open>Selector entries\<close>

lemma split_on_notin: "c \<notin> set s \<Longrightarrow> split_on c s = [s]"
  by (induction s) auto

lemma split_on_append: "c \<notin> set a \<Longrightarrow> split_on c (a @ c # b) = a # split_on c b"
  by (induction a) auto

lemma str_includes_single: "str_includes s [c] \<longleftrightarrow> c \<in> set s"
  by (induction s) auto

text \<open>An entry without \<open>=\<close> is the query of the field \<open>data\<close>.\<close>
lemma nameAndQuery_bare:
  "CHR ''='' \<notin> set entry \<Longrightarrow> nameAndQuery entry = (Some ''data'', Some entry)"
  by (simp add: nameAndQuery_def str_includes_single)

text \<open>An entry with one \<open>=\<close> gives the trimmed name and the trimmed query.\<close>
lemma nameAndQuery_one_equals:
  assumes "CHR ''='' \<notin> set name" and "CHR ''='' \<notin> set query"
  shows "nameAndQuery (name @ ''='' @ query) = (Some (trim name), Some (trim query))"
  using assms
  by (simp add: nameAndQuery_def str_includes_single split_limit_def split_on_append
      split_on_notin)

text \<open>An entry with a second \<open>=\<close> loses everything from the second \<open>=\<close> on.\<close>
lemma nameAndQuery_cut:
  assumes "CHR ''='' \<notin> set name" and "CHR ''='' \<notin> set query"
  shows "nameAndQuery (name @ ''='' @ query @ ''='' @ rest) = (Some (trim name), Some (trim query))"
  using assms
  by (simp add: nameAndQuery_def str_includes_single split_limit_def split_on_append)

subsection \<open>The pipeline for one URL\<close>

lemma attemptBypass_returns: "attemptBypass page = Inr ()"
proof -
  have "fold (\<lambda>selector acc.
             case acc of
               Inl e \<Rightarrow> Inl e
             | Inr u \<Rightarrow> (case bypass_try page selector of Inl e \<Rightarrow> Inr () | Inr v \<Rightarrow> Inr ()))
          sels (Inr ()) = Inr ()" for sels
    by (induction sels) (auto split: sum.splits)
  then show ?thesis by (simp add: attemptBypass_def)
qed

lemma captureLogo_returns: "\<exists>v. captureLogo rt page b d f = Inr v"
  by (auto simp: captureLogo_def Let_def split: option.splits sum.splits)

lemma aiSmartScrape_returns: "\<exists>v. aiSmartScrape rt page k = Inr v"
  by (auto simp: aiSmartScrape_def Let_def split: option.splits sum.splits)

lemma selectorSpec_eq:
  "selectorSpec which globalName v globalSpec =
     (if truthy v then
        (case v of
           Str spec \<Rightarrow> Inr spec
         | _ \<Rightarrow> Inl (''(row.'' @ which @ '' || this.config.selectors.'' @ globalName
                       @ '').split is not a function''))
      else Inr globalSpec)"
  by (cases v) (simp_all add: selectorSpec_def js_or_def truthy_def)

text \<open>Selector extraction throws exactly when a selector cell of the row cannot be split.\<close>
lemma scrapeCustomData_throws:
  "scrapeCustomData cfg page row = Inl e \<longleftrightarrow> selector_fatal row = Some e"
  by (cases "CSSSelector row"; cases "XPathSelector row")
     (auto simp: scrapeCustomData_def selectorSpec_eq selector_fatal_def is_string_def
        truthy_def Let_def)

lemma scrapeCustomData_returns:
  "selector_fatal row = None \<Longrightarrow> \<exists>d. scrapeCustomData cfg page row = Inr d"
  using scrapeCustomData_throws [of cfg page row]
  by (cases "scrapeCustomData cfg page row") auto

lemma Status_finalize: "Status (finalize rt result d) = SUCCESS"
  by (simp add: finalize_def)

lemma selectorsProvided_iff: "selectorsProvided cfg row = supplies_selector cfg row"
  by (auto simp: selectorsProvided_def supplies_selector_def js_or_def truthy_def)

lemma selector_fatal_provided: "selector_fatal row = Some e \<Longrightarrow> selectorsProvided cfg row"
  by (auto simp: selectorsProvided_iff supplies_selector_def selector_fatal_def
      split: if_splits)



lemma scrapeUrl_try_fatal:
  "early_fatal rt cfg browser url firstRow = Some msg \<Longrightarrow>
   \<exists>result page calls. scrapeUrl_try rt cfg browser url firstRow = (Inl msg, result, page, calls)
      \<and> ScrapeCustomData \<notin> set calls \<and> AiSmartScrape \<notin> set calls \<and> CaptureLogo \<notin> set calls
      \<and> (page = None \<longleftrightarrow> (\<forall>p. browser \<noteq> Some (Inr p)))
      \<and> (\<forall>p. page = Some p \<longrightarrow> browser = Some (Inr p))"
  by (auto simp: early_fatal_def scrapeUrl_try_def Let_def attemptBypass_returns
      split: option.splits sum.splits)

lemma extractData_eq:
  "extractData rt cfg page row result calls =
     (if selectorsProvided cfg row then
        (case selector_fatal row of
           Some e \<Rightarrow> (Inl e, result, calls @ [ScrapeCustomData])
         | None \<Rightarrow>
             (Inr (),
              finalize rt result (case scrapeCustomData cfg page row of Inr d \<Rightarrow> d | Inl e \<Rightarrow> []),
              calls @ [ScrapeCustomData]))
      else if useAISmartScrape cfg then
        (Inr (),
         finalize rt
           (case aiSmartScrape rt page (aiApiKey cfg) of
              Inr (Some j) \<Rightarrow> if j \<noteq> [] then result\<lparr>ScrapedData := j\<rparr> else result
            | _ \<Rightarrow> result) [],
         calls @ [AiSmartScrape])
      else (Inr (), finalize rt result [], calls))"
proof -
  obtain a where a: "aiSmartScrape rt page (aiApiKey cfg) = Inr a"
    using aiSmartScrape_returns by blast
  show ?thesis
  proof (cases "selector_fatal row")
    case None
    then obtain d where d: "scrapeCustomData cfg page row = Inr d"
      using scrapeCustomData_returns by blast
    show ?thesis
      by (simp add: extractData_def d a None split: option.splits)
  next
    case (Some e)
    then have d: "scrapeCustomData cfg page row = Inl e"
      by (simp add: scrapeCustomData_throws)
    show ?thesis
      by (simp add: extractData_def d a Some split: option.splits)
  qed
qed

text \<open>The calls of the extraction stage, and that it keeps the calls made before it.\<close>
lemma extractData_calls:
  "snd (snd (extractData rt cfg page row result calls)) =
     calls @ (if selectorsProvided cfg row then [ScrapeCustomData]
              else if useAISmartScrape cfg then [AiSmartScrape] else [])"
  by (simp add: extractData_eq split: option.splits)

lemma scrapeUrl_try_success:
  assumes "early_fatal rt cfg browser url firstRow = None"
  shows "\<exists>page result0 calls0. browser = Some (Inr page)
      \<and> ScrapedData result0 = ''{}'' \<and> CaptureLogo \<in> set calls0
      \<and> ScrapeCustomData \<notin> set calls0 \<and> AiSmartScrape \<notin> set calls0
      \<and> scrapeUrl_try rt cfg browser url firstRow =
          (case extractData rt cfg page firstRow result0 calls0 of
             (r, result3, calls4) \<Rightarrow> (r, result3, Some page, calls4))"
proof -
  from assms obtain page ss where b: "browser = Some (Inr page)"
    and g: "\<exists>u. goto page url = Inr u"
    and p: "getImagePath rt (outputDirPath cfg) (imageSubFolder cfg)
              (BaseName firstRow) screenshot_type 1 = Inr ss"
    and s: "\<exists>v. screenshot page (fullPath ss) = Inr v"
    by (auto simp: early_fatal_def split: option.splits sum.splits)
  obtain logo where l: "captureLogo rt page (BaseName firstRow) (outputDirPath cfg)
       (imageSubFolder cfg) = Inr logo"
    using captureLogo_returns by blast
  define result0 where "result0 =
     initial_result\<lparr>ScreenshotFile := relativePath ss, LogoFile := or_string logo []\<rparr>"
  define calls0 where "calls0 =
     [NewPage, Goto url, WaitForLoadState, AttemptBypass, PageScreenshot (fullPath ss),
      CaptureLogo]"
  have t: "scrapeUrl_try rt cfg browser url firstRow =
          (case extractData rt cfg page firstRow result0 calls0 of
             (r, result3, calls4) \<Rightarrow> (r, result3, Some page, calls4))"
    using g s p
    by (auto simp: b l scrapeUrl_try_def Let_def attemptBypass_returns result0_def calls0_def)
  have d: "ScrapedData result0 = ''{}''"
    by (simp add: result0_def initial_result_def)
  have c: "CaptureLogo \<in> set calls0" "ScrapeCustomData \<notin> set calls0"
    "AiSmartScrape \<notin> set calls0"
    by (simp_all add: calls0_def)
  show ?thesis
    using b t d c by blast
qed

lemma aiSmartScrape_eq:
  "aiSmartScrape rt page k =
     Inr (if ai_call_fails rt page k then None else Some (ai_json_text rt page k))"
  by (auto simp: aiSmartScrape_def ai_call_fails_def ai_json_text_def Let_def min_def
      split: sum.splits option.splits)

lemma ai_json_text_nonempty: "\<not> ai_call_fails rt page k \<Longrightarrow> ai_json_text rt page k \<noteq> []"
  by (auto simp: ai_call_fails_def ai_json_text_def split: sum.splits option.splits)

lemma scrapeUrl_calls:
  "c \<noteq> PageClose \<Longrightarrow>
   c \<in> set (snd (scrapeUrl rt cfg browser url firstRow))
     \<longleftrightarrow> c \<in> set (snd (snd (snd (scrapeUrl_try rt cfg browser url firstRow))))"
  by (cases "scrapeUrl_try rt cfg browser url firstRow")
     (auto simp: scrapeUrl_def Let_def split: option.splits sum.splits)

lemma scrapeUrl_result:
  "fst (scrapeUrl rt cfg browser url firstRow) = Inr r \<Longrightarrow>
   r = (case scrapeUrl_try rt cfg browser url firstRow of
          (Inl msg, result, page, calls) \<Rightarrow> result\<lparr>ErrorMessage := msg, Status := ERROR\<rparr>
        | (Inr u, result, page, calls) \<Rightarrow> result)"
  by (cases "scrapeUrl_try rt cfg browser url firstRow")
     (auto simp: scrapeUrl_def Let_def split: option.splits sum.splits)

text \<open>The calls of the pipeline, by whether a failure ends it before the extraction stage.\<close>
lemma scrapeUrl_strategy:
  "(case early_fatal rt cfg browser url firstRow of
      Some msg \<Rightarrow>
        ScrapeCustomData \<notin> set (snd (scrapeUrl rt cfg browser url firstRow))
        \<and> AiSmartScrape \<notin> set (snd (scrapeUrl rt cfg browser url firstRow))
        \<and> CaptureLogo \<notin> set (snd (scrapeUrl rt cfg browser url firstRow))
    | None \<Rightarrow>
        CaptureLogo \<in> set (snd (scrapeUrl rt cfg browser url firstRow))
        \<and> (ScrapeCustomData \<in> set (snd (scrapeUrl rt cfg browser url firstRow))
             \<longleftrightarrow> selectorsProvided cfg firstRow)
        \<and> (AiSmartScrape \<in> set (snd (scrapeUrl rt cfg browser url firstRow))
             \<longleftrightarrow> \<not> selectorsProvided cfg firstRow \<and> useAISmartScrape cfg))"
proof (cases "early_fatal rt cfg browser url firstRow")
  case None
  from scrapeUrl_try_success [OF None] obtain page result0 calls0 where
    c: "CaptureLogo \<in> set calls0" "ScrapeCustomData \<notin> set calls0" "AiSmartScrape \<notin> set calls0"
    and t: "scrapeUrl_try rt cfg browser url firstRow =
          (case extractData rt cfg page firstRow result0 calls0 of
             (r, result3, calls4) \<Rightarrow> (r, result3, Some page, calls4))"
    by blast
  have s: "snd (snd (snd (scrapeUrl_try rt cfg browser url firstRow)))
      = snd (snd (extractData rt cfg page firstRow result0 calls0))"
    by (simp add: t split: prod.splits)
  show ?thesis
    using c by (simp add: None scrapeUrl_calls s extractData_calls)
next
  case (Some msg)
  from scrapeUrl_try_fatal [OF Some] obtain result page calls where
    t: "scrapeUrl_try rt cfg browser url firstRow = (Inl msg, result, page, calls)"
    and c: "ScrapeCustomData \<notin> set calls" "AiSmartScrape \<notin> set calls" "CaptureLogo \<notin> set calls"
    by blast
  show ?thesis
    using c by (simp add: Some scrapeUrl_calls t)
qed

text \<open>
  The result of a pipeline that reaches the extraction stage: ERROR with the message of
  the selector cell that cannot be split, and SUCCESS otherwise.
\<close>
lemma scrapeUrl_success_result:
  assumes "early_fatal rt cfg browser url firstRow = None"
    and "fst (scrapeUrl rt cfg browser url firstRow) = Inr r"
  shows "\<exists>page. browser = Some (Inr page)
     \<and> (case selector_fatal firstRow of
           Some e \<Rightarrow> Status r = ERROR \<and> ErrorMessage r = e
         | None \<Rightarrow> Status r = SUCCESS \<and> ErrorMessage r = [])
     \<and> (\<not> selectorsProvided cfg firstRow \<longrightarrow>
          Status r = SUCCESS
          \<and> ScrapedData r =
            (if useAISmartScrape cfg \<and> \<not> ai_call_fails rt page (aiApiKey cfg)
             then ai_json_text rt page (aiApiKey cfg) else ''{}''))"
proof -
  from scrapeUrl_try_success [OF assms(1)] obtain page result0 calls0 where
    b: "browser = Some (Inr page)" and d: "ScrapedData result0 = ''{}''"
    and t: "scrapeUrl_try rt cfg browser url firstRow =
          (case extractData rt cfg page firstRow result0 calls0 of
             (r, result3, calls4) \<Rightarrow> (r, result3, Some page, calls4))"
    by blast
  note r = scrapeUrl_result [OF assms(2), unfolded t]
  show ?thesis
  proof (cases "selector_fatal firstRow")
    case None
    show ?thesis
      using d r
      by (simp add: b extractData_eq None finalize_def aiSmartScrape_eq ai_json_text_nonempty)
  next
    case (Some e)
    then have p: "selectorsProvided cfg firstRow"
      by (rule selector_fatal_provided)
    show ?thesis
      using r by (simp add: b extractData_eq Some p)
  qed
qed

lemma scrapeUrl_status:
  assumes "fst (scrapeUrl rt cfg browser url firstRow) = Inr r"
  shows "Status r = SUCCESS \<or> Status r = ERROR"
proof (cases "early_fatal rt cfg browser url firstRow")
  case None
  from scrapeUrl_success_result [OF None assms] show ?thesis
    by (cases "selector_fatal firstRow") auto
next
  case (Some msg)
  from scrapeUrl_try_fatal [OF Some] obtain result page calls where
    t: "scrapeUrl_try rt cfg browser url firstRow = (Inl msg, result, page, calls)"
    by blast
  show ?thesis using scrapeUrl_result [OF assms] by (simp add: t)
qed



subsection \<open>The worker pool\<close>

lemma set_update_subset: "set (AList.update k v al) \<subseteq> insert (k, v) (set al)"
  by (induction al) auto

lemma in_set_updateD: "(a, b) \<in> set (AList.update k v al) \<Longrightarrow> (a, b) = (k, v) \<or> (a, b) \<in> set al"
  using set_update_subset [of k v al] by auto

lemma fold_step_Inl: "fold (scrapeNext_step rt cfg newPage urlEntries) schedule (Inl e) = Inl e"
  by (induction schedule) (simp_all add: scrapeNext_step_def)

lemma fold_step_inv:
  assumes "fold (scrapeNext_step rt cfg newPage urlEntries) schedule (Inr acc) = Inr sr"
    and "distinct (map fst acc)"
    and "\<forall>(u, r) \<in> set acc. Status r = SUCCESS \<or> Status r = ERROR"
  shows "distinct (map fst sr)
     \<and> (\<forall>(u, r) \<in> set sr. Status r = SUCCESS \<or> Status r = ERROR)
     \<and> fst ` set sr \<subseteq> fst ` set acc
           \<union> (\<lambda>i. fst (urlEntries ! i)) ` {i \<in> set schedule. i < length urlEntries}"
  using assms
proof (induction schedule arbitrary: acc)
  case Nil
  then show ?case by auto
next
  case (Cons i schedule)
  show ?case
  proof (cases "scrapeNext_step rt cfg newPage urlEntries i (Inr acc)")
    case (Inl e)
    with Cons.prems(1) show ?thesis by (simp add: fold_step_Inl)
  next
    case (Inr acc')
    have d: "distinct (map fst acc')"
      using Inr Cons.prems(2)
      by (auto simp: scrapeNext_step_def distinct_update split: if_splits prod.splits sum.splits)
    have s: "\<forall>(u, r) \<in> set acc'. Status r = SUCCESS \<or> Status r = ERROR"
      using Inr Cons.prems(3)
      by (auto simp: scrapeNext_step_def split: if_splits prod.splits sum.splits
          dest!: in_set_updateD dest: scrapeUrl_status)
    have k: "fst ` set acc' \<subseteq> fst ` set acc
           \<union> (\<lambda>j. fst (urlEntries ! j)) ` {j \<in> set (i # schedule). j < length urlEntries}"
      using Inr
      by (auto simp: scrapeNext_step_def split: if_splits prod.splits sum.splits
          dest!: in_set_updateD intro: rev_image_eqI)
    from Cons.prems(1) Inr have f: "fold (scrapeNext_step rt cfg newPage urlEntries) schedule (Inr acc') = Inr sr"
      by simp
    from Cons.IH [OF f d s] have "distinct (map fst sr)"
      and "\<forall>(u, r) \<in> set sr. Status r = SUCCESS \<or> Status r = ERROR"
      and "fst ` set sr \<subseteq> fst ` set acc'
           \<union> (\<lambda>i. fst (urlEntries ! i)) ` {i \<in> set schedule. i < length urlEntries}"
      by blast+
    moreover have "(\<lambda>i. fst (urlEntries ! i)) ` {i \<in> set schedule. i < length urlEntries}
        \<subseteq> (\<lambda>j. fst (urlEntries ! j)) ` {j \<in> set (i # schedule). j < length urlEntries}"
      by auto
    ultimately show ?thesis using k by blast
  qed
qed

lemma scrapeNext_inv:
  assumes "scrapeNext rt cfg newPage urlEntries schedule = Inr sr"
  shows "distinct (map fst sr)
     \<and> (\<forall>(u, r) \<in> set sr. Status r = SUCCESS \<or> Status r = ERROR)
     \<and> fst ` set sr \<subseteq> (\<lambda>i. fst (urlEntries ! i)) ` {i \<in> set schedule. i < length urlEntries}"
  using fold_step_inv [of rt cfg newPage urlEntries schedule "[]" sr] assms
  by (simp add: scrapeNext_def scrapeNext_step_def)

lemma uniqueUrls_fold_keys:
  "fst ` set (fold (\<lambda>row uniqueUrls.
             if truthy (URL row) \<and> map_of uniqueUrls (URL row) = None
             then AList.update (URL row) row uniqueUrls else uniqueUrls) rows acc)
   = fst ` set acc \<union> {u \<in> URL ` set rows. truthy u}"
proof (induction rows arbitrary: acc)
  case Nil
  then show ?case by simp
next
  case (Cons r rows)
  let ?f = "\<lambda>row uniqueUrls.
             if truthy (URL row) \<and> map_of uniqueUrls (URL row) = None
             then AList.update (URL row) row uniqueUrls else uniqueUrls"
  have "fst ` set (fold ?f (r # rows) acc)
      = fst ` set (?f r acc) \<union> {u \<in> URL ` set rows. truthy u}"
    by (simp only: fold_simps Cons.IH)
  moreover have "fst ` set (?f r acc) = fst ` set acc \<union> {u \<in> {URL r}. truthy u}"
    by (auto simp: dom_update map_of_eq_None_iff)
  ultimately show ?case by auto
qed

lemma uniqueUrls_keys: "fst ` set (uniqueUrls_of rows) = {u \<in> URL ` set rows. truthy u}"
  by (simp add: uniqueUrls_of_def uniqueUrls_fold_keys)

lemma distinct_uniqueUrls: "distinct (map fst (uniqueUrls_of rows))"
proof -
  have "distinct (map fst acc) \<Longrightarrow>
     distinct (map fst (fold (\<lambda>row uniqueUrls.
             if truthy (URL row) \<and> map_of uniqueUrls (URL row) = None
             then AList.update (URL row) row uniqueUrls else uniqueUrls) rows acc))" for acc
    by (induction rows arbitrary: acc) (simp_all add: distinct_update)
  then show ?thesis by (simp add: uniqueUrls_of_def)
qed

lemma map_of_nth_distinct:
  "distinct (map fst xs) \<Longrightarrow> i < length xs \<Longrightarrow> map_of xs (fst (xs ! i)) = Some (snd (xs ! i))"
  by (metis map_of_is_SomeI nth_mem prod.collapse)

lemma fold_step_throws:
  "(\<exists>e. fold (scrapeNext_step rt cfg newPage urlEntries) schedule (Inr acc) = Inl e) \<longleftrightarrow>
   (\<exists>i \<in> set schedule. i < length urlEntries \<and>
      (\<exists>e. fst (scrapeUrl rt cfg (Some (newPage (fst (urlEntries ! i)))) (fst (urlEntries ! i))
               (snd (urlEntries ! i))) = Inl e))"
proof (induction schedule arbitrary: acc)
  case Nil
  then show ?case by simp
next
  case (Cons i schedule)
  show ?case
  proof (cases "scrapeNext_step rt cfg newPage urlEntries i (Inr acc)")
    case (Inl e)
    then have "i < length urlEntries \<and>
      (\<exists>e. fst (scrapeUrl rt cfg (Some (newPage (fst (urlEntries ! i)))) (fst (urlEntries ! i))
               (snd (urlEntries ! i))) = Inl e)"
      by (auto simp: scrapeNext_step_def split: if_splits prod.splits sum.splits)
    then show ?thesis by (auto simp: Inl fold_step_Inl)
  next
    case (Inr acc')
    then have "\<not> (i < length urlEntries \<and>
      (\<exists>e. fst (scrapeUrl rt cfg (Some (newPage (fst (urlEntries ! i)))) (fst (urlEntries ! i))
               (snd (urlEntries ! i))) = Inl e))"
      by (auto simp: scrapeNext_step_def split: if_splits prod.splits sum.splits)
    then show ?thesis by (auto simp: Inr Cons.IH)
  qed
qed

lemma fold_step_lookup:
  assumes "distinct (map fst urlEntries)"
    and "fold (scrapeNext_step rt cfg newPage urlEntries) schedule (Inr acc) = Inr sr"
  shows "map_of sr u =
     (if u \<in> (\<lambda>i. fst (urlEntries ! i)) ` {i \<in> set schedule. i < length urlEntries}
      then stored rt cfg newPage urlEntries u else map_of acc u)"
  using assms(2)
proof (induction schedule arbitrary: acc)
  case Nil
  then show ?case by simp
next
  case (Cons i schedule)
  show ?case
  proof (cases "scrapeNext_step rt cfg newPage urlEntries i (Inr acc)")
    case (Inl e)
    with Cons.prems show ?thesis by (simp add: fold_step_Inl)
  next
    case (Inr acc')
    with Cons.prems have f: "fold (scrapeNext_step rt cfg newPage urlEntries) schedule (Inr acc') = Inr sr"
      by simp
    have a: "map_of acc' u =
       (if i < length urlEntries \<and> fst (urlEntries ! i) = u
        then stored rt cfg newPage urlEntries u else map_of acc u)"
    proof (cases "i < length urlEntries")
      case True
      obtain url firstRow where e: "urlEntries ! i = (url, firstRow)"
        by (cases "urlEntries ! i")
      from map_of_nth_distinct [OF assms(1) True] have m: "map_of urlEntries url = Some firstRow"
        by (simp add: e)
      from Inr True e obtain r where
        r: "fst (scrapeUrl rt cfg (Some (newPage url)) url firstRow) = Inr r"
        and acc': "acc' = AList.update url r acc"
        by (auto simp: scrapeNext_step_def split: sum.splits)
      show ?thesis
        using True m r by (auto simp: acc' update_conv' e stored_def)
    next
      case False
      with Inr show ?thesis by (simp add: scrapeNext_step_def)
    qed
    show ?thesis
      using Cons.IH [OF f] a by auto
  qed
qed

lemma scrapeNext_set_cong:
  assumes "distinct (map fst urlEntries)" and "set schedule = set schedule'"
  shows "(case scrapeNext rt cfg newPage urlEntries schedule of
            Inl e \<Rightarrow> \<exists>e'. scrapeNext rt cfg newPage urlEntries schedule' = Inl e'
          | Inr sr \<Rightarrow> \<exists>sr'. scrapeNext rt cfg newPage urlEntries schedule' = Inr sr'
                        \<and> map_of sr' = map_of sr)"
proof -
  let ?f = "fold (scrapeNext_step rt cfg newPage urlEntries)"
  have n: "scrapeNext rt cfg newPage urlEntries s = ?f s (Inr [])" for s
    by (simp add: scrapeNext_def scrapeNext_step_def)
  have t: "(\<exists>e. ?f schedule (Inr []) = Inl e) \<longleftrightarrow> (\<exists>e. ?f schedule' (Inr []) = Inl e)"
    unfolding fold_step_throws assms(2) ..
  show ?thesis
  proof (cases "?f schedule (Inr [])")
    case (Inl e)
    with t obtain e' where "?f schedule' (Inr []) = Inl e'" by blast
    then show ?thesis by (simp add: n Inl)
  next
    case (Inr sr)
    with t have "\<not> (\<exists>e. ?f schedule' (Inr []) = Inl e)" by simp
    then obtain sr' where f': "?f schedule' (Inr []) = Inr sr'"
      by (cases "?f schedule' (Inr [])") auto
    have "map_of sr' = map_of sr"
      by (rule ext)
        (simp add: fold_step_lookup [OF assms(1) Inr] fold_step_lookup [OF assms(1) f'] assms(2))
    then show ?thesis by (simp add: n Inr f')
  qed
qed

lemma remap_map_of_cong:
  assumes "distinct (map fst sr)" "distinct (map fst sr')" "map_of sr' = map_of sr"
  shows "map_of (remap rows sr') = map_of (remap rows sr)"
  by (rule ext) (simp add: remap_lookup assms)

subsection \<open>The run\<close>

lemma start_unfold:
  assumes "inputRows = map (inputRow rt) data"
  shows "start rt cfg (Inr data) newPage schedule =
     (if (\<exists>u. ensureDir rt (path_join rt [outputDirPath cfg, imageSubFolder cfg]) = Inr u)
         \<and> (\<exists>v. launch rt = Inr v)
         \<and> \<not> min (concurrency cfg) (int (length (uniqueUrls_of inputRows))) < 0
      then
        (case scrapeNext rt cfg newPage (uniqueUrls_of inputRows)
                (if min (concurrency cfg) (int (length (uniqueUrls_of inputRows))) = 0
                 then [] else schedule) of
           Inl e \<Rightarrow> None
         | Inr sr \<Rightarrow>
             (case writeFileSync rt of
                Inl e \<Rightarrow> None
              | Inr w \<Rightarrow> Some (generateOutputCsv inputRows (remap inputRows sr))))
      else None)"
proof (cases "ensureDir rt (path_join rt [outputDirPath cfg, imageSubFolder cfg])")
  case (Inl e)
  then show ?thesis by (simp add: start_def parseInputCsv_def Let_def)
next
  case d: (Inr u)
  show ?thesis
  proof (cases "launch rt")
    case (Inl e)
    then show ?thesis by (simp add: start_def parseInputCsv_def Let_def d)
  next
    case (Inr v)
    then show ?thesis
      by (auto simp add: start_def parseInputCsv_def d assms Let_def min_def split: sum.splits)
  qed
qed

lemma start_SomeD:
  assumes "start rt cfg parsed newPage schedule = Some outputRows"
  shows "\<exists>data sr sched. parsed = Inr data
     \<and> set sched \<subseteq> set schedule
     \<and> scrapeNext rt cfg newPage (uniqueUrls_of (map (inputRow rt) data)) sched = Inr sr
     \<and> outputRows = generateOutputCsv (map (inputRow rt) data)
                       (remap (map (inputRow rt) data) sr)"
proof -
  from assms obtain data where p: "parsed = Inr data"
    by (cases parsed) (auto simp: start_def parseInputCsv_def)
  define inputRows where "inputRows = map (inputRow rt) data"
  let ?sched = "if min (concurrency cfg) (int (length (uniqueUrls_of inputRows))) = 0
                then [] else schedule"
  from assms obtain sr where
    "scrapeNext rt cfg newPage (uniqueUrls_of inputRows) ?sched = Inr sr"
    "outputRows = generateOutputCsv inputRows (remap inputRows sr)"
    unfolding p start_unfold [OF inputRows_def]
    by (auto split: sum.splits if_splits)
  moreover have "set ?sched \<subseteq> set schedule" by simp
  ultimately show ?thesis using p unfolding inputRows_def by blast
qed

lemma map_of_eq_generate:
  "map_of m = map_of m' \<Longrightarrow> generateOutputCsv inputRows m = generateOutputCsv inputRows m'"
  by (simp add: generateOutputCsv_map outputRow_of_def)

text \<open>The URL cell of an output row: the URL of the input row, or the empty string for a falsy one.\<close>
lemma cell_URL:
  assumes "row \<in> set inputRows" and "''URL'' \<in> fst ` set row"
  shows "cell (outputRow_of (finalHeaders_of inputRows) m row) ''URL''
           = Some (js_or (URL row) (Str []))"
proof -
  have "''URL'' \<in> set (finalHeaders_of inputRows)"
    using keys_row_in_final [OF assms(1)] assms(2) by blast
  moreover have "''URL'' \<notin> set result_headers" by (simp add: result_headers_def)
  ultimately show ?thesis
    by (simp add: cell_input_column URL_def)
qed

lemma start_set_cong:
  assumes "set schedule = set schedule'"
  shows "start rt cfg parsed newPage schedule = start rt cfg parsed newPage schedule'"
proof (cases parsed)
  case (Inl e)
  then show ?thesis by (simp add: start_def parseInputCsv_def)
next
  case (Inr data)
  define inputRows where "inputRows = map (inputRow rt) data"
  let ?ue = "uniqueUrls_of inputRows"
  let ?z = "min (concurrency cfg) (int (length ?ue)) = 0"
  let ?s = "if ?z then [] else schedule"
  let ?s' = "if ?z then [] else schedule'"
  have e: "set ?s = set ?s'" using assms by simp
  have g: "(case scrapeNext rt cfg newPage ?ue ?s of
              Inl e \<Rightarrow> None
            | Inr sr \<Rightarrow>
                (case writeFileSync rt of
                   Inl e \<Rightarrow> None
                 | Inr w \<Rightarrow> Some (generateOutputCsv inputRows (remap inputRows sr))))
         = (case scrapeNext rt cfg newPage ?ue ?s' of
              Inl e \<Rightarrow> None
            | Inr sr \<Rightarrow>
                (case writeFileSync rt of
                   Inl e \<Rightarrow> None
                 | Inr w \<Rightarrow> Some (generateOutputCsv inputRows (remap inputRows sr))))"
  proof (cases "scrapeNext rt cfg newPage ?ue ?s")
    case (Inl e)
    with scrapeNext_set_cong [OF distinct_uniqueUrls [of inputRows] e, where rt = rt and cfg = cfg
        and newPage = newPage]
    have "\<exists>e'. scrapeNext rt cfg newPage ?ue ?s' = Inl e'" by fastforce
    then show ?thesis by (auto simp: Inl)
  next
    case (Inr sr)
    with scrapeNext_set_cong [OF distinct_uniqueUrls [of inputRows] e, where rt = rt and cfg = cfg
        and newPage = newPage]
    obtain sr' where n': "scrapeNext rt cfg newPage ?ue ?s' = Inr sr'"
      and m: "map_of sr' = map_of sr" by fastforce
    from scrapeNext_inv [OF Inr] scrapeNext_inv [OF n']
    have "distinct (map fst sr)" "distinct (map fst sr')" by blast+
    then have "map_of (remap inputRows sr') = map_of (remap inputRows sr)"
      using m by (rule remap_map_of_cong)
    then have "generateOutputCsv inputRows (remap inputRows sr')
        = generateOutputCsv inputRows (remap inputRows sr)"
      by (rule map_of_eq_generate)
    then show ?thesis by (simp add: Inr n' split: sum.splits)
  qed
  show ?thesis
    unfolding Inr start_unfold [OF inputRows_def] g ..
qed

lemma remap_status:
  assumes "scrapeNext rt cfg newPage urlEntries schedule = Inr sr"
    and "map_of (remap inputRows sr) u = Some r"
  shows "Status r = SUCCESS \<or> Status r = ERROR \<or> Status r = DUPLICATE"
proof -
  from scrapeNext_inv [OF assms(1)] have d: "distinct (map fst sr)"
    and s: "\<forall>(u, r) \<in> set sr. Status r = SUCCESS \<or> Status r = ERROR"
    by blast+
  show ?thesis
  proof (cases "u \<in> URL ` set (tl inputRows)")
    case True
    with assms(2) have "\<exists>r0. r = relabel r0"
      by (auto simp: remap_lookup [OF d])
    then show ?thesis by (auto simp: relabel_def)
  next
    case False
    with assms(2) have "map_of sr u = Some r"
      by (simp add: remap_lookup [OF d])
    then have "(u, r) \<in> set sr" by (rule map_of_SomeD)
    with s show ?thesis by auto
  qed
qed

section \<open>The claims\<close>

subsection \<open>Evaluations of the example run\<close>

text \<open>
  The run of the three example rows in which both URLs are scraped without failure, the
  first URL completing first.
\<close>
lemma example_run:
  "start example_runtime example_config (Inr example_data) (\<lambda>u. Inr example_page) [0, 1] =
     Some
      [[(''BaseName'', Str ''A''), (''URL'', Str ''u1''), (''CSSSelector'', Str []),
        (''XPathSelector'', Str []), (''ScreenshotFile'', Str ''images/A.png''),
        (''LogoFile'', Str []), (''ScrapedData'', Str ''{}''), (''Status'', Str ''DUPLICATE''),
        (''ErrorMessage'', Str ''Result shared from first instance of this URL.'')],
       [(''BaseName'', Str ''B''), (''URL'', Str ''u1''), (''CSSSelector'', Str []),
        (''XPathSelector'', Str []), (''ScreenshotFile'', Str ''images/A.png''),
        (''LogoFile'', Str []), (''ScrapedData'', Str ''{}''), (''Status'', Str ''DUPLICATE''),
        (''ErrorMessage'', Str ''Result shared from first instance of this URL.'')],
       [(''BaseName'', Str ''C''), (''URL'', Str ''u2''), (''CSSSelector'', Str []),
        (''XPathSelector'', Str []), (''ScreenshotFile'', Str ''images/C.png''),
        (''LogoFile'', Str []), (''ScrapedData'', Str ''{}''), (''Status'', Str ''DUPLICATE''),
        (''ErrorMessage'', Str ''Result shared from first instance of this URL.'')]]"
  by code_simp

text \<open>
  The run of the four rows cancelled after the first URL: the rows of \<open>u1\<close> carry its
  result, the row of \<open>u2\<close> and the row with the empty URL take the fallback.
\<close>
lemma cancelled_run:
  "map_option (map (\<lambda>outputRow. (cell outputRow ''BaseName'', cell outputRow ''Status'',
                      cell outputRow ''ErrorMessage'')))
     (start example_runtime example_config (Inr example_data4) (\<lambda>u. Inr example_page) [0]) =
     Some
      [(Some (Str ''A''), Some (Str ''DUPLICATE''),
        Some (Str ''Result shared from first instance of this URL.'')),
       (Some (Str ''B''), Some (Str ''DUPLICATE''),
        Some (Str ''Result shared from first instance of this URL.'')),
       (Some (Str ''C''), Some (Str ''ERROR''),
        Some (Str ''Internal error: URL not found in results map.'')),
       (Some (Str ''D''), Some (Str ''ERROR''),
        Some (Str ''Internal error: URL not found in results map.''))]"
  by code_simp

subsection \<open>C1\<close>

text \<open>
  Claim C1 says that of the rows sharing a URL the first keeps the status SUCCESS or
  ERROR of the pipeline and the later ones are DUPLICATE with the artifact paths of the
  first. In the run of the example rows A (u1), B (u1), C (u2), where both pipelines
  succeed, the rows A and B do share the paths, but row A, the first occurrence of u1,
  is written with status DUPLICATE: no row of u1 has status SUCCESS or ERROR.
\<close>
theorem first_occurrence_written_as_duplicate:
  "map_option (map (\<lambda>outputRow. (cell outputRow ''BaseName'', cell outputRow ''URL'',
                      cell outputRow ''Status'', cell outputRow ''ScreenshotFile'',
                      cell outputRow ''LogoFile'')))
     (start example_runtime example_config (Inr example_data) (\<lambda>u. Inr example_page) [0, 1]) =
     Some
      [(Some (Str ''A''), Some (Str ''u1''), Some (Str ''DUPLICATE''),
        Some (Str ''images/A.png''), Some (Str [])),
       (Some (Str ''B''), Some (Str ''u1''), Some (Str ''DUPLICATE''),
        Some (Str ''images/A.png''), Some (Str [])),
       (Some (Str ''C''), Some (Str ''u2''), Some (Str ''DUPLICATE''),
        Some (Str ''images/C.png''), Some (Str []))]"
  using example_run by (simp add: cell_def)

subsection \<open>C2\<close>

text \<open>
  Claim C2 says that a row that is the first with its URL receives the result of the
  pipeline unchanged. In the same run the pipeline of u2 returns a result with status
  SUCCESS and an empty message, and row C, the only row of u2, is written with status
  DUPLICATE and the message of a shared result.
\<close>
theorem first_seen_row_relabelled:
  "fst (scrapeUrl example_runtime example_config (Some (Inr example_page)) (Str ''u2'')
          (example_row ''C'' ''u2'')) =
     Inr \<lparr>ScreenshotFile = ''images/C.png'', LogoFile = [], ScrapedData = ''{}'',
          Status = SUCCESS, ErrorMessage = []\<rparr>
   \<and> map_option (\<lambda>outputRows. outputRows ! 2)
       (start example_runtime example_config (Inr example_data) (\<lambda>u. Inr example_page) [0, 1]) =
     Some [(''BaseName'', Str ''C''), (''URL'', Str ''u2''), (''CSSSelector'', Str []),
           (''XPathSelector'', Str []), (''ScreenshotFile'', Str ''images/C.png''),
           (''LogoFile'', Str []), (''ScrapedData'', Str ''{}''), (''Status'', Str ''DUPLICATE''),
           (''ErrorMessage'', Str ''Result shared from first instance of this URL.'')]"
proof
  show "fst (scrapeUrl example_runtime example_config (Some (Inr example_page)) (Str ''u2'')
          (example_row ''C'' ''u2'')) =
     Inr \<lparr>ScreenshotFile = ''images/C.png'', LogoFile = [], ScrapedData = ''{}'',
          Status = SUCCESS, ErrorMessage = []\<rparr>"
    by code_simp
next
  show "map_option (\<lambda>outputRows. outputRows ! 2)
       (start example_runtime example_config (Inr example_data) (\<lambda>u. Inr example_page) [0, 1]) =
     Some [(''BaseName'', Str ''C''), (''URL'', Str ''u2''), (''CSSSelector'', Str []),
           (''XPathSelector'', Str []), (''ScreenshotFile'', Str ''images/C.png''),
           (''LogoFile'', Str []), (''ScrapedData'', Str ''{}''), (''Status'', Str ''DUPLICATE''),
           (''ErrorMessage'', Str ''Result shared from first instance of this URL.'')]"
    using example_run by simp
qed

subsection \<open>C3\<close>

text \<open>
  Claim C3. The output table has one row per input row, in input order: the table that
  \<open>generateOutputCsv\<close> builds from any result map has the length of the input, and its
  row \<open>i\<close> carries every input column of input row \<open>i\<close> (a falsy cell is written as the
  empty string), among them the URL of row \<open>i\<close> of the rows built from a parsed file.
  The order of completion does not matter: two result maps with the same entries give
  the same table, and two runs whose schedules complete the same queue positions, in
  any order, write the same table; the table of any run has the length and the URL
  column of the input.
\<close>
theorem output_rows_follow_input_rows:
  "length (generateOutputCsv inputRows scrapeResults) = length inputRows
   \<and> (\<forall>i < length inputRows.
        \<forall>k \<in> set (finalHeaders_of inputRows) - set result_headers.
           cell (generateOutputCsv inputRows scrapeResults ! i) k =
             Some (js_or (obj_get (inputRows ! i) k) (Str [])))
   \<and> (\<forall>i < length data.
        cell (generateOutputCsv (map (inputRow rt) data) scrapeResults ! i) ''URL'' =
          Some (js_or (URL (inputRow rt (data ! i))) (Str [])))
   \<and> (map_of scrapeResults = map_of scrapeResults' \<longrightarrow>
        generateOutputCsv inputRows scrapeResults = generateOutputCsv inputRows scrapeResults')
   \<and> (set schedule = set schedule' \<longrightarrow>
        start rt cfg parsed newPage schedule = start rt cfg parsed newPage schedule')
   \<and> (start rt cfg (Inr data) newPage schedule = Some outputRows \<longrightarrow>
        length outputRows = length data
        \<and> map (\<lambda>outputRow. cell outputRow ''URL'') outputRows
            = map (\<lambda>row. Some (js_or (URL (inputRow rt row)) (Str []))) data)"
proof (intro conjI allI impI ballI)
  show "length (generateOutputCsv inputRows scrapeResults) = length inputRows"
    by (simp add: generateOutputCsv_map)
next
  fix i k assume "i < length inputRows" "k \<in> set (finalHeaders_of inputRows) - set result_headers"
  then show "cell (generateOutputCsv inputRows scrapeResults ! i) k =
                Some (js_or (obj_get (inputRows ! i) k) (Str []))"
    by (simp add: generateOutputCsv_map cell_input_column)
next
  fix i assume "i < length data"
  then show "cell (generateOutputCsv (map (inputRow rt) data) scrapeResults ! i) ''URL'' =
          Some (js_or (URL (inputRow rt (data ! i))) (Str []))"
    by (simp add: generateOutputCsv_map cell_URL URL_in_keys)
next
  assume "map_of scrapeResults = map_of scrapeResults'"
  then show "generateOutputCsv inputRows scrapeResults = generateOutputCsv inputRows scrapeResults'"
    by (rule map_of_eq_generate)
next
  assume "set schedule = set schedule'"
  then show "start rt cfg parsed newPage schedule = start rt cfg parsed newPage schedule'"
    by (rule start_set_cong)
next
  assume s: "start rt cfg (Inr data) newPage schedule = Some outputRows"
  from start_SomeD [OF s] obtain sr where
    o: "outputRows = generateOutputCsv (map (inputRow rt) data)
                       (remap (map (inputRow rt) data) sr)" by auto
  show "length outputRows = length data"
    by (simp add: o generateOutputCsv_map)
  show "map (\<lambda>outputRow. cell outputRow ''URL'') outputRows
      = map (\<lambda>row. Some (js_or (URL (inputRow rt row)) (Str []))) data"
    by (simp add: o generateOutputCsv_map cell_URL URL_in_keys)
qed

theorem output_rows_follow_input_rows_witness:
  "start example_runtime example_config (Inr example_data) (\<lambda>u. Inr example_page) [0, 1]
     = start example_runtime example_config (Inr example_data) (\<lambda>u. Inr example_page) [1, 0]
   \<and> map_option length
        (start example_runtime example_config (Inr example_data) (\<lambda>u. Inr example_page) [0, 1])
       = Some 3
   \<and> map_option (map (\<lambda>outputRow. cell outputRow ''URL''))
        (start example_runtime example_config (Inr example_data) (\<lambda>u. Inr example_page) [0, 1])
       = Some [Some (Str ''u1''), Some (Str ''u1''), Some (Str ''u2'')]
   \<and> generateOutputCsv example_rows
         [(Str ''u1'', initial_result), (Str ''u2'', relabel initial_result)]
       = generateOutputCsv example_rows
         [(Str ''u2'', relabel initial_result), (Str ''u1'', initial_result)]
   \<and> cell (generateOutputCsv example_rows [(Str ''u2'', initial_result)] ! 1) ''BaseName''
       = Some (Str ''B'')
   \<and> cell (generateOutputCsv (map (inputRow example_runtime) example_data4)
              [(Str ''u2'', initial_result)] ! 3) ''URL''
       = Some (Str [])"
proof -
  let ?run = "start example_runtime example_config (Inr example_data) (\<lambda>u. Inr example_page)"
  let ?m = "[(Str ''u1'', initial_result), (Str ''u2'', relabel initial_result)]"
  let ?m' = "[(Str ''u2'', relabel initial_result), (Str ''u1'', initial_result)]"
  have len: "length example_data = 3"
    and urls: "map (\<lambda>row. Some (js_or (URL (inputRow example_runtime row)) (Str []))) example_data
        = [Some (Str ''u1''), Some (Str ''u1''), Some (Str ''u2'')]"
    by code_simp+
  have sets: "set [0, 1 :: nat] = set [1, 0]" by auto
  have maps: "map_of ?m = map_of ?m'"
    by (rule ext) simp
  have key: "''BaseName'' \<in> set (finalHeaders_of example_rows) - set result_headers"
    by code_simp
  have one: "1 < length example_rows"
    by (simp add: example_rows_def len)
  have base: "js_or (obj_get (example_rows ! 1) ''BaseName'') (Str []) = Str ''B''"
    by code_simp
  have three: "3 < length example_data4"
    by (simp add: example_data4_def len)
  have blank: "js_or (URL (inputRow example_runtime (example_data4 ! 3))) (Str []) = Str []"
    by code_simp
  have run: "?run [0, 1] = Some (the (?run [0, 1]))"
    using example_run by simp
  note t = output_rows_follow_input_rows [where inputRows = example_rows
      and rt = example_runtime and cfg = example_config and parsed = "Inr example_data"
      and newPage = "\<lambda>u. Inr example_page" and schedule = "[0, 1]" and schedule' = "[1, 0]"
      and outputRows = "the (?run [0, 1])"]
  note t1 = t [where scrapeResults = ?m and scrapeResults' = ?m' and data = example_data]
  have a: "?run [0, 1] = ?run [1, 0]"
    using t1 sets by blast
  have "length (the (?run [0, 1])) = length example_data"
    using t1 run by blast
  then have b: "map_option length (?run [0, 1]) = Some 3"
    by (subst run) (simp add: len)
  have "map (\<lambda>outputRow. cell outputRow ''URL'') (the (?run [0, 1]))
      = map (\<lambda>row. Some (js_or (URL (inputRow example_runtime row)) (Str []))) example_data"
    using t1 run by blast
  then have c: "map_option (map (\<lambda>outputRow. cell outputRow ''URL'')) (?run [0, 1])
      = Some [Some (Str ''u1''), Some (Str ''u1''), Some (Str ''u2'')]"
    by (subst run) (simp add: urls)
  have d: "generateOutputCsv example_rows ?m = generateOutputCsv example_rows ?m'"
    using t1 maps by blast
  have "cell (generateOutputCsv example_rows [(Str ''u2'', initial_result)] ! 1) ''BaseName''
      = Some (js_or (obj_get (example_rows ! 1) ''BaseName'') (Str []))"
    using t [where scrapeResults = "[(Str ''u2'', initial_result)]" and data = example_data]
      one key by blast
  then have e: "cell (generateOutputCsv example_rows [(Str ''u2'', initial_result)] ! 1)
        ''BaseName'' = Some (Str ''B'')"
    by (simp only: base)
  have "cell (generateOutputCsv (map (inputRow example_runtime) example_data4)
              [(Str ''u2'', initial_result)] ! 3) ''URL''
      = Some (js_or (URL (inputRow example_runtime (example_data4 ! 3))) (Str []))"
    using t [where scrapeResults = "[(Str ''u2'', initial_result)]" and data = example_data4]
      three by blast
  then have f: "cell (generateOutputCsv (map (inputRow example_runtime) example_data4)
              [(Str ''u2'', initial_result)] ! 3) ''URL'' = Some (Str [])"
    by (simp only: blank)
  show ?thesis
    by (intro conjI) (rule a b c d e f)+
qed

subsection \<open>C4\<close>

text \<open>
  Claim C4. The log buffer never exceeds 500 entries: after any sequence of appends to
  the buffer of a fresh engine (and to any buffer of at most 500 entries) the buffer
  holds at most 500 entries; an append to a buffer of exactly 500 entries drops the
  oldest 100 and leaves 401: the 400 newest old entries, in order, and the new entry.
\<close>
theorem log_buffer_bounded:
  "length (logMessages (log_all cs new_engine)) \<le> 500
   \<and> (length (logMessages e) \<le> 500 \<longrightarrow> length (logMessages (log_all cs e)) \<le> 500)
   \<and> (length (logMessages e) = 500 \<longrightarrow>
        length (logMessages (log lvl msg detail now e)) = 401
        \<and> logMessages (log lvl msg detail now e) =
            drop 100 (logMessages e) @
            [\<lparr>level = lvl,
              message = (case detail of
                           Some d \<Rightarrow> if d \<noteq> [] then msg @ '' ('' @ d @ '')'' else msg
                         | None \<Rightarrow> msg),
              timestamp = now\<rparr>])"
proof (intro conjI impI)
  show "length (logMessages (log_all cs new_engine)) \<le> 500"
    by (rule length_log_all_le) (simp add: new_engine_def)
next
  assume "length (logMessages e) \<le> 500"
  then show "length (logMessages (log_all cs e)) \<le> 500"
    by (rule length_log_all_le)
next
  assume "length (logMessages e) = 500"
  then show "length (logMessages (log lvl msg detail now e)) = 401"
    by (simp add: logMessages_log Let_def)
next
  assume "length (logMessages e) = 500"
  then show "logMessages (log lvl msg detail now e) =
            drop 100 (logMessages e) @
            [\<lparr>level = lvl,
              message = (case detail of
                           Some d \<Rightarrow> if d \<noteq> [] then msg @ '' ('' @ d @ '')'' else msg
                         | None \<Rightarrow> msg),
              timestamp = now\<rparr>]"
    by (simp add: logMessages_log Let_def)
qed

theorem log_buffer_bounded_witness:
  "length (logMessages (new_engine\<lparr>logMessages :=
       replicate 500 \<lparr>level = INFO, message = ''x'', timestamp = 0\<rparr>\<rparr>)) = 500
   \<and> length (logMessages (log WARN ''y'' (Some ''z'') 1 (new_engine\<lparr>logMessages :=
       replicate 500 \<lparr>level = INFO, message = ''x'', timestamp = 0\<rparr>\<rparr>))) = 401
   \<and> logMessages (log WARN ''y'' (Some ''z'') 1 (new_engine\<lparr>logMessages :=
       replicate 500 \<lparr>level = INFO, message = ''x'', timestamp = 0\<rparr>\<rparr>)) =
       replicate 400 \<lparr>level = INFO, message = ''x'', timestamp = 0\<rparr>
       @ [\<lparr>level = WARN, message = ''y (z)'', timestamp = 1\<rparr>]
   \<and> length (logMessages (log_all [(WARN, ''y'', Some ''z'', 1)] (new_engine\<lparr>logMessages :=
       replicate 500 \<lparr>level = INFO, message = ''x'', timestamp = 0\<rparr>\<rparr>))) \<le> 500"
  using log_buffer_bounded [of "[(WARN, ''y'', Some ''z'', 1)]"
      "new_engine\<lparr>logMessages :=
         replicate 500 \<lparr>level = INFO, message = ''x'', timestamp = 0\<rparr>\<rparr>"
      WARN "''y''" "Some ''z''" 1]
  by simp


subsection \<open>C5\<close>

text \<open>
  Claim C5. The extraction stage chooses one strategy. Selector extraction is called
  only when the row or the configuration supplies a non-empty selector spec, and the AI
  call only when none is supplied and the AI fallback is enabled. When the pipeline
  reaches the stage (the logo capture before it was called): with a selector spec,
  selector extraction is called and the AI is not; without one and with the fallback
  enabled, the AI is called and selector extraction is not; otherwise neither is called
  and the extracted data of the result is the empty object.
\<close>
theorem extraction_strategy:
  "(ScrapeCustomData \<in> set (snd (scrapeUrl rt cfg browser url firstRow))
      \<longrightarrow> supplies_selector cfg firstRow)
   \<and> (AiSmartScrape \<in> set (snd (scrapeUrl rt cfg browser url firstRow))
      \<longrightarrow> \<not> supplies_selector cfg firstRow \<and> useAISmartScrape cfg)
   \<and> (CaptureLogo \<in> set (snd (scrapeUrl rt cfg browser url firstRow)) \<longrightarrow>
        (if supplies_selector cfg firstRow then
           ScrapeCustomData \<in> set (snd (scrapeUrl rt cfg browser url firstRow))
           \<and> AiSmartScrape \<notin> set (snd (scrapeUrl rt cfg browser url firstRow))
         else if useAISmartScrape cfg then
           AiSmartScrape \<in> set (snd (scrapeUrl rt cfg browser url firstRow))
           \<and> ScrapeCustomData \<notin> set (snd (scrapeUrl rt cfg browser url firstRow))
         else
           ScrapeCustomData \<notin> set (snd (scrapeUrl rt cfg browser url firstRow))
           \<and> AiSmartScrape \<notin> set (snd (scrapeUrl rt cfg browser url firstRow))
           \<and> (\<forall>r. fst (scrapeUrl rt cfg browser url firstRow) = Inr r
                 \<longrightarrow> ScrapedData r = ''{}'')))"
proof (cases "early_fatal rt cfg browser url firstRow")
  case None
  have d: "\<forall>r. fst (scrapeUrl rt cfg browser url firstRow) = Inr r
      \<longrightarrow> \<not> selectorsProvided cfg firstRow \<longrightarrow> \<not> useAISmartScrape cfg \<longrightarrow> ScrapedData r = ''{}''"
    using scrapeUrl_success_result [OF None] by fastforce
  show ?thesis
    using scrapeUrl_strategy [of rt cfg browser url firstRow] d
    by (simp add: None selectorsProvided_iff)
next
  case (Some msg)
  show ?thesis
    using scrapeUrl_strategy [of rt cfg browser url firstRow]
    by (simp add: Some)
qed

theorem extraction_strategy_witness:
  "snd (scrapeUrl example_runtime ai_config (Some (Inr example_page)) (Str ''u1'') css_row) =
     [NewPage, Goto (Str ''u1''), WaitForLoadState, AttemptBypass,
      PageScreenshot ''out/images/A.png'', CaptureLogo, ScrapeCustomData, PageClose]
   \<and> supplies_selector ai_config css_row
   \<and> AiSmartScrape \<in> set (snd (scrapeUrl example_runtime ai_config (Some (Inr example_page))
         (Str ''u1'') (example_row ''A'' ''u1'')))
   \<and> ScrapeCustomData \<notin> set (snd (scrapeUrl example_runtime ai_config (Some (Inr example_page))
         (Str ''u1'') (example_row ''A'' ''u1'')))
   \<and> \<not> supplies_selector ai_config (example_row ''A'' ''u1'')
   \<and> useAISmartScrape ai_config
   \<and> snd (scrapeUrl example_runtime example_config (Some (Inr example_page)) (Str ''u1'')
          (example_row ''A'' ''u1'')) =
     [NewPage, Goto (Str ''u1''), WaitForLoadState, AttemptBypass,
      PageScreenshot ''out/images/A.png'', CaptureLogo, PageClose]
   \<and> ScrapedData (projr (fst (scrapeUrl example_runtime example_config (Some (Inr example_page))
          (Str ''u1'') (example_row ''A'' ''u1'')))) = ''{}''"
proof -
  let ?row = "example_row ''A'' ''u1''"
  have c1: "snd (scrapeUrl example_runtime ai_config (Some (Inr example_page)) (Str ''u1'')
        css_row) =
     [NewPage, Goto (Str ''u1''), WaitForLoadState, AttemptBypass,
      PageScreenshot ''out/images/A.png'', CaptureLogo, ScrapeCustomData, PageClose]"
    by code_simp
  have f2: "early_fatal example_runtime ai_config (Some (Inr example_page)) (Str ''u1'') ?row
      = None"
    by code_simp
  have n2: "\<not> selectorsProvided ai_config ?row" "useAISmartScrape ai_config"
    by code_simp+
  have c2: "CaptureLogo \<in> set (snd (scrapeUrl example_runtime ai_config (Some (Inr example_page))
         (Str ''u1'') ?row))"
    using scrapeUrl_strategy [of example_runtime ai_config "Some (Inr example_page)"
        "Str ''u1''" ?row]
    by (simp add: f2)
  have c3: "snd (scrapeUrl example_runtime example_config (Some (Inr example_page)) (Str ''u1'')
        ?row) =
     [NewPage, Goto (Str ''u1''), WaitForLoadState, AttemptBypass,
      PageScreenshot ''out/images/A.png'', CaptureLogo, PageClose]"
    by code_simp
  have r3: "fst (scrapeUrl example_runtime example_config (Some (Inr example_page)) (Str ''u1'')
        ?row)
      = Inr (projr (fst (scrapeUrl example_runtime example_config (Some (Inr example_page))
          (Str ''u1'') ?row)))"
    by code_simp
  have n3: "\<not> supplies_selector example_config ?row" "\<not> useAISmartScrape example_config"
    by code_simp+
  have s1: "supplies_selector ai_config css_row"
    using extraction_strategy [of example_runtime ai_config "Some (Inr example_page)"
        "Str ''u1''" css_row]
    by (simp add: c1)
  have s2: "AiSmartScrape \<in> set (snd (scrapeUrl example_runtime ai_config
         (Some (Inr example_page)) (Str ''u1'') ?row))"
    "ScrapeCustomData \<notin> set (snd (scrapeUrl example_runtime ai_config
         (Some (Inr example_page)) (Str ''u1'') ?row))"
    "\<not> supplies_selector ai_config ?row"
    using extraction_strategy [of example_runtime ai_config "Some (Inr example_page)"
        "Str ''u1''" ?row]
      c2 n2 [unfolded selectorsProvided_iff]
    by (metis (full_types))+
  have s3: "ScrapedData (projr (fst (scrapeUrl example_runtime example_config
          (Some (Inr example_page)) (Str ''u1'') ?row))) = ''{}''"
    using extraction_strategy [of example_runtime example_config "Some (Inr example_page)"
        "Str ''u1''" ?row] n3 r3
    by (simp add: c3)
  show ?thesis
    by (intro conjI) (rule c1 s1 s2 n2(2) c3 s3)+
qed

subsection \<open>C6\<close>




subsection \<open>C7\<close>



subsection \<open>C8\<close>

text \<open>
  Claim C8 says that an entry \<open>name=query\<close> yields the field \<open>name\<close> with the query
  \<open>query\<close>. The example of the specification parses as it says, but a query that
  contains \<open>=\<close> is cut at its first \<open>=\<close>: the entry \<open>author=//span[@class='author']\<close>, the
  example of the README for the XPathSelector column, is read as the query
  \<open>//span[@class\<close>, so that on a page that has the author the field is null.
\<close>
theorem selector_query_cut_at_second_equals:
  "map nameAndQuery (selectorList ''price=.price, .title'') =
     [(Some ''price'', Some ''.price''), (Some ''data'', Some ''.title'')]
   \<and> map nameAndQuery (selectorList ''author=//span[@class='author']'') =
     [(Some ''author'', Some ''//span[@class'')]
   \<and> textContent author_page ''xpath=//span[@class='author']'' = Inr (Some ''Jane Doe'')
   \<and> XPathSelector xpath_row = Str ''author=//span[@class='author']''
   \<and> scrapeCustomData example_config author_page xpath_row = Inr [(''author'', Null)]"
  by code_simp

subsection \<open>C9\<close>

text \<open>
  Claim C9. A row whose URL has no entry in the result map is written as one output row
  with status ERROR and the fixed message "Internal error: URL not found in results
  map.", for any result map. In a run this covers the rows with an empty URL (a falsy
  URL cell), which are never queued, and the rows whose URL was at no queue position
  that the schedule completed, as after a cancellation.
\<close>
theorem missing_url_yields_error_row:
  "(i < length inputRows \<and> map_of scrapeResults (URL (inputRows ! i)) = None \<longrightarrow>
      length (generateOutputCsv inputRows scrapeResults) = length inputRows
      \<and> cell (generateOutputCsv inputRows scrapeResults ! i) ''Status'' = Some (Str ''ERROR'')
      \<and> cell (generateOutputCsv inputRows scrapeResults ! i) ''ErrorMessage''
           = Some (Str ''Internal error: URL not found in results map.''))
   \<and> (start rt cfg (Inr data) newPage schedule = Some outputRows \<and> i < length data
       \<and> (\<not> truthy (URL (inputRow rt (data ! i)))
            \<or> (\<forall>j \<in> set schedule. j < length (uniqueUrls_of (map (inputRow rt) data)) \<longrightarrow>
                  fst (uniqueUrls_of (map (inputRow rt) data) ! j)
                    \<noteq> URL (inputRow rt (data ! i)))) \<longrightarrow>
      length outputRows = length data
      \<and> cell (outputRows ! i) ''Status'' = Some (Str ''ERROR'')
      \<and> cell (outputRows ! i) ''ErrorMessage''
           = Some (Str ''Internal error: URL not found in results map.''))"
proof (intro conjI impI; (elim conjE)?)
  assume i: "i < length inputRows" and n: "map_of scrapeResults (URL (inputRows ! i)) = None"
  show "length (generateOutputCsv inputRows scrapeResults) = length inputRows"
    by (simp add: generateOutputCsv_map)
  show "cell (generateOutputCsv inputRows scrapeResults ! i) ''Status'' = Some (Str ''ERROR'')"
    using i n by (simp add: generateOutputCsv_map cell_Status)
  show "cell (generateOutputCsv inputRows scrapeResults ! i) ''ErrorMessage''
           = Some (Str ''Internal error: URL not found in results map.'')"
    using i n by (simp add: generateOutputCsv_map cell_ErrorMessage)
next
  define inputRows where "inputRows = map (inputRow rt) data"
  assume s: "start rt cfg (Inr data) newPage schedule = Some outputRows"
    and i: "i < length data"
    and u: "\<not> truthy (URL (inputRow rt (data ! i)))
            \<or> (\<forall>j \<in> set schedule. j < length (uniqueUrls_of (map (inputRow rt) data)) \<longrightarrow>
                  fst (uniqueUrls_of (map (inputRow rt) data) ! j)
                    \<noteq> URL (inputRow rt (data ! i)))"
  have row: "inputRow rt (data ! i) = inputRows ! i" and len: "i < length inputRows"
    using i by (simp_all add: inputRows_def)
  from start_SomeD [OF s] obtain sr sched where sub: "set sched \<subseteq> set schedule"
    and n: "scrapeNext rt cfg newPage (uniqueUrls_of inputRows) sched = Inr sr"
    and o: "outputRows = generateOutputCsv inputRows (remap inputRows sr)"
    unfolding inputRows_def by auto
  from scrapeNext_inv [OF n] have d: "distinct (map fst sr)"
    and k: "fst ` set sr \<subseteq> (\<lambda>j. fst (uniqueUrls_of inputRows ! j))
                ` {j \<in> set sched. j < length (uniqueUrls_of inputRows)}"
    by blast+
  have "URL (inputRows ! i) \<notin> fst ` set sr"
  proof
    assume "URL (inputRows ! i) \<in> fst ` set sr"
    with k obtain j where j: "j \<in> set sched" "j < length (uniqueUrls_of inputRows)"
      "fst (uniqueUrls_of inputRows ! j) = URL (inputRows ! i)"
      by auto
    then have "URL (inputRows ! i) \<in> fst ` set (uniqueUrls_of inputRows)"
      by (metis image_eqI nth_mem)
    then have "truthy (URL (inputRows ! i))"
      by (simp add: uniqueUrls_keys)
    with u j sub show False
      unfolding row inputRows_def [symmetric] by auto
  qed
  then have "map_of sr (URL (inputRows ! i)) = None"
    by (simp add: map_of_eq_None_iff)
  then have m: "map_of (remap inputRows sr) (URL (inputRows ! i)) = None"
    by (simp add: remap_lookup [OF d])
  show "length outputRows = length data"
    by (simp add: o generateOutputCsv_map inputRows_def)
  show "cell (outputRows ! i) ''Status'' = Some (Str ''ERROR'')"
    using len m by (simp add: o generateOutputCsv_map cell_Status)
  show "cell (outputRows ! i) ''ErrorMessage''
           = Some (Str ''Internal error: URL not found in results map.'')"
    using len m by (simp add: o generateOutputCsv_map cell_ErrorMessage)
qed

theorem missing_url_yields_error_row_witness:
  "map_of [(Str ''u1'', initial_result)] (URL (example_rows4 ! 2)) = None
   \<and> length (generateOutputCsv example_rows4 [(Str ''u1'', initial_result)])
       = length example_rows4
   \<and> cell (generateOutputCsv example_rows4 [(Str ''u1'', initial_result)] ! 2) ''Status''
       = Some (Str ''ERROR'')
   \<and> URL (inputRow example_runtime (example_data4 ! 3)) = Null
   \<and> cell (the (start example_runtime example_config (Inr example_data4)
               (\<lambda>u. Inr example_page) [0]) ! 3) ''Status'' = Some (Str ''ERROR'')
   \<and> fst (uniqueUrls_of (map (inputRow example_runtime) example_data4) ! 0)
       \<noteq> URL (inputRow example_runtime (example_data4 ! 2))
   \<and> cell (the (start example_runtime example_config (Inr example_data4)
               (\<lambda>u. Inr example_page) [0]) ! 2) ''Status'' = Some (Str ''ERROR'')
   \<and> cell (the (start example_runtime example_config (Inr example_data4)
               (\<lambda>u. Inr example_page) [0]) ! 2) ''ErrorMessage''
       = Some (Str ''Internal error: URL not found in results map.'')"
proof -
  let ?run = "start example_runtime example_config (Inr example_data4) (\<lambda>u. Inr example_page) [0]"
  let ?rows = "map (inputRow example_runtime) example_data4"
  have len: "2 < length example_rows4" "3 < length example_rows4"
    "2 < length example_data4" "3 < length example_data4"
    by (simp_all add: example_rows4_def example_data4_def example_data_def)
  have absent: "map_of [(Str ''u1'', initial_result)] (URL (example_rows4 ! 2)) = None"
    by code_simp
  have blank: "URL (inputRow example_runtime (example_data4 ! 3)) = Null"
    by code_simp
  then have falsy: "\<not> truthy (URL (inputRow example_runtime (example_data4 ! 3)))"
    by (simp add: truthy_def)
  have other: "fst (uniqueUrls_of ?rows ! 0) \<noteq> URL (inputRow example_runtime (example_data4 ! 2))"
    by code_simp
  then have unscheduled: "\<forall>j \<in> set [0]. j < length (uniqueUrls_of ?rows) \<longrightarrow>
      fst (uniqueUrls_of ?rows ! j) \<noteq> URL (inputRow example_runtime (example_data4 ! 2))"
    by simp
  have run: "?run = Some (the ?run)"
    using cancelled_run by auto
  note t = missing_url_yields_error_row [where inputRows = example_rows4
      and scrapeResults = "[(Str ''u1'', initial_result)]" and rt = example_runtime
      and cfg = example_config and data = example_data4 and newPage = "\<lambda>u. Inr example_page"
      and schedule = "[0]" and outputRows = "the ?run"]
  have a: "length (generateOutputCsv example_rows4 [(Str ''u1'', initial_result)])
        = length example_rows4"
    "cell (generateOutputCsv example_rows4 [(Str ''u1'', initial_result)] ! 2) ''Status''
       = Some (Str ''ERROR'')"
    using t [where i = 2] len(1) absent by blast+
  have b: "cell (the ?run ! 3) ''Status'' = Some (Str ''ERROR'')"
    using t [where i = 3] len(4) falsy run by blast
  have c: "cell (the ?run ! 2) ''Status'' = Some (Str ''ERROR'')"
    "cell (the ?run ! 2) ''ErrorMessage''
       = Some (Str ''Internal error: URL not found in results map.'')"
    using t [where i = 2] len(3) unscheduled run by blast+
  show ?thesis
    by (intro conjI) (rule absent a blank b other c)+
qed

subsection \<open>C10\<close>

text \<open>
  Claim C10. No result has the status SKIPPED: a result that the pipeline returns is
  SUCCESS or ERROR; an entry of the map handed to the aggregator after a pool run is
  SUCCESS, ERROR or DUPLICATE; and in the table of any run that writes one (completed
  or cancelled; a failed run writes none) the Status cell of every row is one of the
  three words SUCCESS, ERROR, DUPLICATE, and never the word SKIPPED.
\<close>
theorem status_never_skipped:
  "(fst (scrapeUrl rt cfg browser url firstRow) = Inr r \<longrightarrow> Status r = SUCCESS \<or> Status r = ERROR)
   \<and> (scrapeNext rt cfg newPage urlEntries schedule = Inr scrapeResults
        \<and> map_of (remap inputRows scrapeResults) u = Some r' \<longrightarrow>
        Status r' = SUCCESS \<or> Status r' = ERROR \<or> Status r' = DUPLICATE)
   \<and> (start rt cfg parsed newPage schedule = Some outputRows \<longrightarrow>
        (\<forall>outputRow \<in> set outputRows.
            cell outputRow ''Status''
              \<in> {Some (Str ''SUCCESS''), Some (Str ''ERROR''), Some (Str ''DUPLICATE'')}
            \<and> cell outputRow ''Status'' \<noteq> Some (Str (Status_string SKIPPED))))"
proof (intro conjI impI ballI; (elim conjE)?)
  assume "fst (scrapeUrl rt cfg browser url firstRow) = Inr r"
  then show "Status r = SUCCESS \<or> Status r = ERROR"
    by (rule scrapeUrl_status)
next
  assume "scrapeNext rt cfg newPage urlEntries schedule = Inr scrapeResults"
    and "map_of (remap inputRows scrapeResults) u = Some r'"
  then show "Status r' = SUCCESS \<or> Status r' = ERROR \<or> Status r' = DUPLICATE"
    by (rule remap_status)
next
  fix outputRow
  assume s: "start rt cfg parsed newPage schedule = Some outputRows"
    and m: "outputRow \<in> set outputRows"
  from start_SomeD [OF s] obtain data sr sched where
    n: "scrapeNext rt cfg newPage (uniqueUrls_of (map (inputRow rt) data)) sched = Inr sr"
    and o: "outputRows = generateOutputCsv (map (inputRow rt) data)
                           (remap (map (inputRow rt) data) sr)"
    by auto
  define inputRows where "inputRows = map (inputRow rt) data"
  from m o obtain row where
    r: "outputRow = outputRow_of (finalHeaders_of inputRows) (remap inputRows sr) row"
    unfolding inputRows_def [symmetric] by (auto simp: generateOutputCsv_map)
  have c: "cell outputRow ''Status''
      \<in> {Some (Str ''SUCCESS''), Some (Str ''ERROR''), Some (Str ''DUPLICATE'')}"
  proof (cases "map_of (remap inputRows sr) (URL row)")
    case None
    then show ?thesis by (simp add: r cell_Status)
  next
    case (Some res)
    from remap_status [OF n Some [unfolded inputRows_def]] show ?thesis
      by (auto simp: r cell_Status Some Status_string_def)
  qed
  show "cell outputRow ''Status''
      \<in> {Some (Str ''SUCCESS''), Some (Str ''ERROR''), Some (Str ''DUPLICATE'')}"
    by (rule c)
  show "cell outputRow ''Status'' \<noteq> Some (Str (Status_string SKIPPED))"
    using c by (auto simp: Status_string_def)
qed

theorem status_never_skipped_witness:
  "Status (projr (fst (scrapeUrl example_runtime example_config (Some (Inr example_page))
       (Str ''u1'') (example_row ''A'' ''u1'')))) = SUCCESS
   \<and> Status (the (map_of (remap example_rows4
         (projr (scrapeNext example_runtime example_config (\<lambda>u. Inr example_page)
            (uniqueUrls_of example_rows4) [0]))) (Str ''u1''))) = DUPLICATE
   \<and> map (\<lambda>outputRow. cell outputRow ''Status'')
        (the (start example_runtime example_config (Inr example_data4)
                (\<lambda>u. Inr example_page) [0]))
       = [Some (Str ''DUPLICATE''), Some (Str ''DUPLICATE''), Some (Str ''ERROR''),
          Some (Str ''ERROR'')]
   \<and> cell (the (start example_runtime example_config (Inr example_data4)
                (\<lambda>u. Inr example_page) [0]) ! 0) ''Status''
       \<noteq> Some (Str (Status_string SKIPPED))"
proof -
  let ?row = "example_row ''A'' ''u1''"
  let ?one = "scrapeUrl example_runtime example_config (Some (Inr example_page)) (Str ''u1'') ?row"
  let ?pool = "scrapeNext example_runtime example_config (\<lambda>u. Inr example_page)
            (uniqueUrls_of example_rows4) [0]"
  let ?run = "start example_runtime example_config (Inr example_data4) (\<lambda>u. Inr example_page) [0]"
  have one: "fst ?one = Inr (projr (fst ?one))" and ok: "Status (projr (fst ?one)) \<noteq> ERROR"
    by code_simp+
  have pool: "?pool = Inr (projr ?pool)"
    by code_simp
  have entry: "map_of (remap example_rows4 (projr ?pool)) (Str ''u1'')
        = Some (the (map_of (remap example_rows4 (projr ?pool)) (Str ''u1'')))"
    and dup: "Status (the (map_of (remap example_rows4 (projr ?pool)) (Str ''u1''))) \<noteq> SUCCESS"
      "Status (the (map_of (remap example_rows4 (projr ?pool)) (Str ''u1''))) \<noteq> ERROR"
    by code_simp+
  have run: "?run = Some (the ?run)"
    using cancelled_run by auto
  have cells: "map (\<lambda>outputRow. cell outputRow ''Status'') (the ?run)
       = [Some (Str ''DUPLICATE''), Some (Str ''DUPLICATE''), Some (Str ''ERROR''),
          Some (Str ''ERROR'')]"
    using cancelled_run by auto
  note t = status_never_skipped [where rt = example_runtime and cfg = example_config
      and browser = "Some (Inr example_page)" and url = "Str ''u1''" and firstRow = ?row
      and r = "projr (fst ?one)" and newPage = "\<lambda>u. Inr example_page"
      and urlEntries = "uniqueUrls_of example_rows4" and schedule = "[0]"
      and scrapeResults = "projr ?pool" and inputRows = example_rows4 and u = "Str ''u1''"
      and r' = "the (map_of (remap example_rows4 (projr ?pool)) (Str ''u1''))"
      and parsed = "Inr example_data4" and outputRows = "the ?run"]
  have a: "Status (projr (fst ?one)) = SUCCESS"
    using t one ok by blast
  have b: "Status (the (map_of (remap example_rows4 (projr ?pool)) (Str ''u1''))) = DUPLICATE"
    using t pool entry dup by blast
  have "length (the ?run) = 4"
    using arg_cong [OF cells, of length] by simp
  then have "the ?run ! 0 \<in> set (the ?run)"
    by simp
  then have c: "cell (the ?run ! 0) ''Status'' \<noteq> Some (Str (Status_string SKIPPED))"
    using t run by blast
  show ?thesis
    by (intro conjI) (rule a b cells c)+
qed

end
